theory Spec2Isabelle
  imports Main "HOL-Library.AList"
begin

section \<open>Python values as the module sees them\<close>

text \<open>
  The module \<^verbatim>\<open>metaweb.py\<close> handles the objects that \<^verbatim>\<open>simplejson\<close> produces and
  consumes: \<^verbatim>\<open>None\<close>, booleans, integers, strings, lists and dicts with string keys.
  A dict is an association list read through \<open>map_of\<close> (the first binding of a key is
  the dict's value for it); \<^verbatim>\<open>d[k] = v\<close> is \<open>AList.update\<close> and \<^verbatim>\<open>d.update(e)\<close>
  is \<open>AList.merge\<close>. Floating-point numbers are not represented.
\<close>

datatype json =
    JNull
  | JBool bool
  | JInt int
  | JStr string
  | JArr "json list"
  | JObj "(string \<times> json) list"

text \<open>
  Every exception the modelled code can raise. \<open>ServiceError url details\<close> and its
  subclass \<open>InternalServiceError url details\<close> are the module's own; the others are
  Python's. \<open>URLError\<close> stands for any failure of the transport below HTTP, which the
  module lets through unchanged.
\<close>

datatype error =
    ServiceError string json
  | InternalServiceError string json
  | KeyError string
  | IndexError
  | TypeError
  | NameError string
  | AttributeError string
  | URLError

text \<open>Truth value of an object, as \<^verbatim>\<open>while cursor:\<close> tests it.\<close>

fun truthy :: "json \<Rightarrow> bool" where
  "truthy JNull = False"
| "truthy (JBool b) = b"
| "truthy (JInt i) = (i \<noteq> 0)"
| "truthy (JStr s) = (s \<noteq> [])"
| "truthy (JArr xs) = (xs \<noteq> [])"
| "truthy (JObj kvs) = (kvs \<noteq> [])"

text \<open>\<^verbatim>\<open>x[k]\<close> with a string key: only a dict accepts it.\<close>

fun py_getitem :: "json \<Rightarrow> string \<Rightarrow> error + json" where
  "py_getitem (JObj kvs) k = (case map_of kvs k of None \<Rightarrow> Inl (KeyError k) | Some v \<Rightarrow> Inr v)"
| "py_getitem x k = Inl TypeError"

text \<open>\<^verbatim>\<open>x[0]\<close>.\<close>

fun py_index0 :: "json \<Rightarrow> error + json" where
  "py_index0 (JArr []) = Inl IndexError"
| "py_index0 (JArr (x # xs)) = Inr x"
| "py_index0 (JStr []) = Inl IndexError"
| "py_index0 (JStr (c # cs)) = Inr (JStr [c])"
| "py_index0 (JObj kvs) = Inl (KeyError ''0'')"
| "py_index0 x = Inl TypeError"

text \<open>
  \<^verbatim>\<open>for r in x\<close>: the elements of a list, the characters of a string, the keys of a
  dict (in the order of the association list, each key once); anything else is not
  iterable.
\<close>

fun py_iter :: "json \<Rightarrow> error + json list" where
  "py_iter (JArr xs) = Inr xs"
| "py_iter (JStr s) = Inr (map (\<lambda>c. JStr [c]) s)"
| "py_iter (JObj kvs) = Inr (map JStr (remdups (map fst kvs)))"
| "py_iter x = Inl TypeError"

text \<open>\<^verbatim>\<open>'%d' % i\<close> for a non-negative \<open>i\<close>.\<close>

fun decimal :: "nat \<Rightarrow> string" where
  "decimal n = (if n < 10 then [char_of (48 + n)]
                else decimal (n div 10) @ [char_of (48 + n mod 10)])"

declare decimal.simps [simp del]

section \<open>Module constants\<close>

definition READ :: string where "READ = ''/api/service/mqlread''"
definition SEARCH :: string where "SEARCH = ''/api/service/search''"
definition DOWNLOAD :: string where "DOWNLOAD = ''/api/trans/raw''"
definition BLURB :: string where "BLURB = ''/api/trans/blurb''"
definition THUMB :: string where "THUMB = ''/api/trans/image_thumb''"
definition LOGIN :: string where "LOGIN = ''/api/account/login''"
definition WRITE :: string where "WRITE = ''/api/service/mqlwrite''"
definition UPLOAD :: string where "UPLOAD = ''/api/service/upload''"
definition TOUCH :: string where "TOUCH = ''/api/service/touch''"
definition OK :: string where "OK = ''/api/status/ok''"

text \<open>
  The string constants bound at module level (lines 38 to 51). The module's other
  global names are the imported modules \<^verbatim>\<open>urllib\<close>, \<^verbatim>\<open>simplejson\<close>, \<^verbatim>\<open>urllib2\<close>,
  \<^verbatim>\<open>cookielib\<close> and the classes \<^verbatim>\<open>Session\<close>, \<^verbatim>\<open>ServiceError\<close>,
  \<^verbatim>\<open>InternalServiceError\<close>. Reading a global name that is not bound raises NameError.
\<close>

definition module_globals :: "(string \<times> string) list" where
  "module_globals =
    [(''READ'', READ), (''SEARCH'', SEARCH), (''DOWNLOAD'', DOWNLOAD), (''BLURB'', BLURB),
     (''THUMB'', THUMB), (''LOGIN'', LOGIN), (''WRITE'', WRITE), (''UPLOAD'', UPLOAD),
     (''TOUCH'', TOUCH), (''OK'', OK)]"

definition global_name :: "string \<Rightarrow> error + string" where
  "global_name x = (case map_of module_globals x of None \<Rightarrow> Inl (NameError x) | Some v \<Rightarrow> Inr v)"

section \<open>Session, transport and libraries\<close>

text \<open>
  The attributes of a \<^verbatim>\<open>Session\<close> that the modelled methods use. \<open>lasturl\<close> does not
  exist until \<^verbatim>\<open>_http\<close> has run once. The cookie jar only decorates requests inside the
  transport and is part of the scripted network below.
\<close>

record session =
  host :: string
  options :: "(string \<times> json) list"
  lasturl :: "string option"

text \<open>
  The network is a script: the replies the server will give, in order, and the URLs
  requested so far. \<open>Response status headers body\<close> is what \<^verbatim>\<open>_http\<close> returns, both
  for a success and for an \<^verbatim>\<open>HTTPError\<close>; header names are lower case, as
  \<^verbatim>\<open>stream.info()\<close> keeps them. \<open>Failure\<close> is an exception of the transport. A request
  beyond the end of the script fails in the same way.
\<close>

datatype reply = Response int "(string \<times> string) list" string | Failure

record net =
  pending :: "reply list"
  sent :: "string list"

text \<open>
  The library functions the module calls and does not define: \<^verbatim>\<open>simplejson.dumps\<close>,
  \<^verbatim>\<open>urllib.urlencode\<close> and \<^verbatim>\<open>simplejson.loads\<close> (\<open>None\<close> when it raises).
\<close>

record lib =
  dumps :: "json \<Rightarrow> string"
  urlencode :: "(string \<times> json) list \<Rightarrow> string"
  loads :: "string \<Rightarrow> json option"

section \<open>The exceptions\<close>

text \<open>\<^verbatim>\<open>InternalServiceError.__init__(self, url, body)\<close> (lines 428 to 433).\<close>

definition InternalServiceError_init :: "string \<Rightarrow> string \<Rightarrow> error" where
  "InternalServiceError_init url body =
     InternalServiceError url
       (JObj [(''code'', JStr ''Internal service error''),
              (''messages'', JArr [JObj [(''code'', JStr ''Unparseable response''),
                                         (''message'', JStr body)]])])"

text \<open>\<^verbatim>\<open>prefix + ": " + x\<close>: adding a non-string to a string is a TypeError.\<close>

fun str_add :: "string \<Rightarrow> json \<Rightarrow> error + string" where
  "str_add p (JStr x) = Inr (p @ x)"
| "str_add p x = Inl TypeError"

text \<open>\<^verbatim>\<open>ServiceError.__str__\<close> (lines 415 to 418), on the url and details of the exception.\<close>

definition ServiceError_str :: "string \<Rightarrow> json \<Rightarrow> error + string" where
  "ServiceError_str url details =
     (let prefix = takeWhile (\<lambda>c. c \<noteq> CHR ''?'') url in
      case py_getitem details ''messages'' of Inl e \<Rightarrow> Inl e
      | Inr msgs \<Rightarrow>
     (case py_index0 msgs of Inl e \<Rightarrow> Inl e
      | Inr msg \<Rightarrow>
     (case py_getitem msg ''code'' of Inl e \<Rightarrow> Inl e
      | Inr c \<Rightarrow>
     (case str_add (prefix @ '': '') c of Inl e \<Rightarrow> Inl e
      | Inr pc \<Rightarrow>
     (case py_getitem msg ''message'' of Inl e \<Rightarrow> Inl e
      | Inr m \<Rightarrow> str_add (pc @ '': '') m)))))"

section \<open>Utility methods of Session\<close>

text \<open>\<^verbatim>\<open>_getopts(self, *keys, **local_options)\<close> (lines 287 to 293).\<close>

definition Session_getopts ::
  "session \<Rightarrow> string list \<Rightarrow> (string \<times> json) list \<Rightarrow> (string \<times> json) list" where
  "Session_getopts s keys local_options =
     AList.merge
       (foldl (\<lambda>acc k. case map_of (options s) k of None \<Rightarrow> acc | Some v \<Rightarrow> AList.update k v acc) [] keys)
       local_options"

text \<open>
  \<^verbatim>\<open>_http(self, url)\<close> (lines 301 to 319), with the default \<^verbatim>\<open>headers\<close> and
  \<^verbatim>\<open>body\<close> that all modelled callers use: remember the URL, send the request, return
  status, headers and body.
\<close>

definition Session_http ::
  "string \<Rightarrow> session \<Rightarrow> net \<Rightarrow> (error + int \<times> (string \<times> string) list \<times> string) \<times> session \<times> net" where
  "Session_http url s w =
     (let s' = s\<lparr>lasturl := Some url\<rparr>; log = sent w @ [url] in
      case pending w of
        [] \<Rightarrow> (Inl URLError, s', \<lparr>pending = [], sent = log\<rparr>)
      | Failure # rest \<Rightarrow> (Inl URLError, s', \<lparr>pending = rest, sent = log\<rparr>)
      | Response status headers body # rest \<Rightarrow>
          (Inr (status, headers, body), s', \<lparr>pending = rest, sent = log\<rparr>))"

text \<open>\<^verbatim>\<open>_parsejson(self, s)\<close> (lines 326 to 334).\<close>

definition Session_parsejson :: "lib \<Rightarrow> session \<Rightarrow> string \<Rightarrow> error + json" where
  "Session_parsejson L s body =
     (case loads L body of
        Some j \<Rightarrow> Inr j
      | None \<Rightarrow> (case lasturl s of
                   None \<Rightarrow> Inl (AttributeError ''lasturl'')
                 | Some u \<Rightarrow> Inl (InternalServiceError_init u body)))"

text \<open>\<^verbatim>\<open>_dumpjson(self, o)\<close> with \<^verbatim>\<open>pretty=False\<close> (lines 340 to 344).\<close>

definition Session_dumpjson :: "lib \<Rightarrow> json \<Rightarrow> string" where
  "Session_dumpjson L obj = dumps L obj"

text \<open>\<^verbatim>\<open>_fetch(self, url)\<close> (lines 353 to 357).\<close>

definition Session_fetch ::
  "lib \<Rightarrow> string \<Rightarrow> session \<Rightarrow> net \<Rightarrow> (error + json) \<times> session \<times> net" where
  "Session_fetch L url s w =
     (case Session_http url s w of
        (Inl e, s', w') \<Rightarrow> (Inl e, s', w')
      | (Inr (status, headers, body), s', w') \<Rightarrow> (Session_parsejson L s' body, s', w'))"

text \<open>\<^verbatim>\<open>_check(self, response)\<close> (lines 375 to 380).\<close>

definition Session_check :: "session \<Rightarrow> json \<Rightarrow> error + json" where
  "Session_check s response =
     (case py_getitem response ''code'' of
        Inl e \<Rightarrow> Inl e
      | Inr code \<Rightarrow>
          if code \<noteq> JStr OK
          then (case lasturl s of
                  None \<Rightarrow> Inl (AttributeError ''lasturl'')
                | Some u \<Rightarrow> Inl (ServiceError u response))
          else Inr response)"

text \<open>\<^verbatim>\<open>_trans(self, url)\<close> (lines 364 to 370).\<close>

definition Session_trans ::
  "lib \<Rightarrow> string \<Rightarrow> session \<Rightarrow> net \<Rightarrow> (error + string \<times> string) \<times> session \<times> net" where
  "Session_trans L url s w =
     (case Session_http url s w of
        (Inl e, s', w') \<Rightarrow> (Inl e, s', w')
      | (Inr (status, headers, body), s', w') \<Rightarrow>
          if status = 200
          then (case map_of headers ''content-type'' of
                  None \<Rightarrow> (Inl (KeyError ''content-type''), s', w')
                | Some t \<Rightarrow> (Inr (body, t), s', w'))
          else (case Session_parsejson L s' body of
                  Inl e \<Rightarrow> (Inl e, s', w')
                | Inr errobj \<Rightarrow> (Inl (ServiceError url errobj), s', w')))"

text \<open>\<^verbatim>\<open>_transURL(self, id, service, option_keys, options)\<close> (lines 383 to 388).\<close>

definition Session_transURL ::
  "lib \<Rightarrow> session \<Rightarrow> string \<Rightarrow> string \<Rightarrow> string list \<Rightarrow> (string \<times> json) list \<Rightarrow> string" where
  "Session_transURL L s ident service option_keys kw =
     (let url = ''http://'' @ host s @ service @ ident;
          opts = Session_getopts s option_keys kw
      in if length opts > 0 then url @ ''?'' @ urlencode L opts else url)"

section \<open>Public methods of Session\<close>

text \<open>
  A method's \<^verbatim>\<open>**options\<close> is the dict \<open>kw\<close>. Python binds it only to keyword
  arguments that name no parameter of the method, so inside \<^verbatim>\<open>results\<close> and
  \<^verbatim>\<open>search\<close> it never has the key \<^verbatim>\<open>query\<close>.
\<close>

text \<open>
  The envelope options that \<^verbatim>\<open>read\<close> and \<^verbatim>\<open>results\<close> gather (lines 119 to 120 and
  166 to 167).
\<close>

definition envelope_opts :: "session \<Rightarrow> (string \<times> json) list \<Rightarrow> (string \<times> json) list" where
  "envelope_opts s kw =
     Session_getopts s [''lang'', ''as_of_time'', ''escape'', ''uniqueness_failure''] kw"

text \<open>\<^verbatim>\<open>'q%d' % i\<close>, the name of slot \<open>i\<close> in an outer envelope.\<close>

definition qname :: "nat \<Rightarrow> string" where
  "qname i = ''q'' @ decimal i"

text \<open>The first loop of \<^verbatim>\<open>read\<close> (lines 123 to 129): the outer request envelope.\<close>

definition read_build :: "json list \<Rightarrow> (string \<times> json) list \<Rightarrow> (string \<times> json) list" where
  "read_build queries opts =
     foldl (\<lambda>outer i. AList.update (qname i) (JObj (AList.merge [(''query'', queries ! i)] opts)) outer)
       [] [0..<length queries]"

text \<open>
  The second loop of \<^verbatim>\<open>read\<close> (lines 144 to 148), over the slots still to visit,
  with the results appended so far.
\<close>

fun read_collect :: "session \<Rightarrow> json \<Rightarrow> nat list \<Rightarrow> json list \<Rightarrow> error + json list" where
  "read_collect s outer [] results = Inr results"
| "read_collect s outer (i # rest) results =
     (case py_getitem outer (qname i) of
        Inl e \<Rightarrow> Inl e
      | Inr inner \<Rightarrow>
          (case Session_check s inner of
             Inl e \<Rightarrow> Inl e
           | Inr checked \<Rightarrow>
               (case py_getitem inner ''result'' of
                  Inl e \<Rightarrow> Inl e
                | Inr r \<Rightarrow> read_collect s outer rest (results @ [r]))))"

text \<open>The URL that \<^verbatim>\<open>read\<close> requests (lines 119 to 136).\<close>

definition read_url :: "lib \<Rightarrow> session \<Rightarrow> json list \<Rightarrow> (string \<times> json) list \<Rightarrow> string" where
  "read_url L s queries kw =
     (let opts = envelope_opts s kw;
          outer = read_build queries opts;
          json = Session_dumpjson L (JObj outer);
          urlparam = urlencode L [(''queries'', JStr json)]
      in ''http://'' @ host s @ READ @ ''?'' @ urlparam)"

text \<open>\<^verbatim>\<open>read(self, *queries, **options)\<close> (lines 106 to 155).\<close>

definition read ::
  "lib \<Rightarrow> session \<Rightarrow> net \<Rightarrow> json list \<Rightarrow> (string \<times> json) list \<Rightarrow> (error + json) \<times> session \<times> net" where
  "read L s w queries kw =
     (let n = length queries;
          url = read_url L s queries kw
      in case Session_fetch L url s w of
           (Inl e, s', w') \<Rightarrow> (Inl e, s', w')
         | (Inr fetched, s', w') \<Rightarrow>
             (case Session_check s' fetched of
                Inl e \<Rightarrow> (Inl e, s', w')
              | Inr outer \<Rightarrow>
                  (case read_collect s' outer [0..<n] [] of
                     Inl e \<Rightarrow> (Inl e, s', w')
                   | Inr results \<Rightarrow>
                       if n = 1 then (Inr (results ! 0), s', w')
                       else (Inr (JArr results), s', w'))))"

text \<open>The URL of one request of \<^verbatim>\<open>results\<close> (lines 179 to 185).\<close>

definition results_url :: "lib \<Rightarrow> session \<Rightarrow> (string \<times> json) list \<Rightarrow> string" where
  "results_url L s envelope =
     (let params = urlencode L [(''query'', JStr (Session_dumpjson L (JObj envelope)))]
      in ''http://'' @ host s @ READ @ ''?'' @ params)"

text \<open>
  Each reply that \<^verbatim>\<open>_http\<close> hands back has been taken from the script, which bounds
  the number of iterations of the loop in \<^verbatim>\<open>results\<close>.
\<close>

lemma Session_http_pending:
  "Session_http url s w = (Inr r, s', w') \<Longrightarrow> length (pending w') < length (pending w)"
  by (auto simp: Session_http_def Let_def split: list.splits reply.splits)

lemma Session_fetch_pending:
  "Session_fetch L url s w = (Inr r, s', w') \<Longrightarrow> length (pending w') < length (pending w)"
  by (auto simp: Session_fetch_def split: prod.splits sum.splits dest: Session_http_pending)

text \<open>
  What a consumer of the generator \<^verbatim>\<open>results\<close> can observe, in the order in which it
  happens: a request leaving for the server, and an item handed over by \<^verbatim>\<open>yield\<close>.
\<close>

datatype event = Request string | Yield json

text \<open>
  The \<^verbatim>\<open>while cursor:\<close> loop of the generator \<^verbatim>\<open>results\<close> (lines 177 to 196), run by
  a consumer that asks for every item. The value is the sequence of events so far,
  how the generator ended (\<open>None\<close>: it returned, so the consumer sees StopIteration;
  \<open>Some e\<close>: it raised \<open>e\<close>), and the session and network afterwards. The generator
  runs only when the consumer asks for the next item, so a consumer that stops early
  has seen a prefix of this sequence that ends in a \<open>Yield\<close>.
\<close>

function results_loop ::
  "lib \<Rightarrow> session \<Rightarrow> net \<Rightarrow> (string \<times> json) list \<Rightarrow> json \<Rightarrow> event list
     \<Rightarrow> event list \<times> error option \<times> session \<times> net" where
  "results_loop L s w envelope cursor trace =
     (if truthy cursor then
        (let envelope' = AList.update ''cursor'' cursor envelope;
             url = results_url L s envelope';
             asked = trace @ [Request url]
         in case Session_fetch L url s w of
              (Inl e, s', w') \<Rightarrow> (asked, Some e, s', w')
            | (Inr fetched, s', w') \<Rightarrow>
                (case Session_check s' fetched of
                   Inl e \<Rightarrow> (asked, Some e, s', w')
                 | Inr response \<Rightarrow>
                     (case py_getitem response ''result'' of
                        Inl e \<Rightarrow> (asked, Some e, s', w')
                      | Inr res \<Rightarrow>
                          (case py_iter res of
                             Inl e \<Rightarrow> (asked, Some e, s', w')
                           | Inr items \<Rightarrow>
                               (case py_getitem response ''cursor'' of
                                  Inl e \<Rightarrow> (asked @ map Yield items, Some e, s', w')
                                | Inr cursor' \<Rightarrow>
                                    results_loop L s' w' envelope' cursor' (asked @ map Yield items))))))
      else (trace, None, s, w))"
  by pat_completeness auto
termination
  by (relation "measure (\<lambda>(L, s, w, envelope, cursor, trace). length (pending w))")
     (auto dest: Session_fetch_pending [OF sym])

declare results_loop.simps [simp del]

text \<open>\<^verbatim>\<open>results(self, query, **options)\<close> (lines 157 to 196).\<close>

definition results ::
  "lib \<Rightarrow> session \<Rightarrow> net \<Rightarrow> json \<Rightarrow> (string \<times> json) list
     \<Rightarrow> event list \<times> error option \<times> session \<times> net" where
  "results L s w query kw =
     (let opts = envelope_opts s kw;
          envelope = AList.merge [(''query'', query)] opts
      in results_loop L s w envelope (JBool True) [])"

text \<open>The request parameters that \<^verbatim>\<open>search\<close> builds (lines 207 to 216).\<close>

definition search_opts :: "session \<Rightarrow> string \<Rightarrow> (string \<times> json) list \<Rightarrow> (string \<times> json) list" where
  "search_opts s query kw =
     (let opts = Session_getopts s
                   [''domain'', ''type'', ''type_strict'', ''limit'', ''start'', ''escape'', ''mql_output'']
                   kw
      in if query \<noteq> [] \<and> last query = CHR ''*''
         then AList.update ''prefix'' (JStr (butlast query)) opts
         else AList.update ''query'' (JStr query) opts)"

definition search_url :: "lib \<Rightarrow> session \<Rightarrow> string \<Rightarrow> (string \<times> json) list \<Rightarrow> string" where
  "search_url L s query kw = ''http://'' @ host s @ SEARCH @ ''?'' @ urlencode L (search_opts s query kw)"

text \<open>\<^verbatim>\<open>search(self, query, **options)\<close> (lines 199 to 222).\<close>

definition search ::
  "lib \<Rightarrow> session \<Rightarrow> net \<Rightarrow> string \<Rightarrow> (string \<times> json) list \<Rightarrow> (error + json) \<times> session \<times> net" where
  "search L s w query kw =
     (case Session_fetch L (search_url L s query kw) s w of
        (Inl e, s', w') \<Rightarrow> (Inl e, s', w')
      | (Inr envelope, s', w') \<Rightarrow>
          (case Session_check s' envelope of
             Inl e \<Rightarrow> (Inl e, s', w')
           | Inr checked \<Rightarrow>
               (case py_getitem envelope ''result'' of
                  Inl e \<Rightarrow> (Inl e, s', w')
                | Inr r \<Rightarrow> (Inr r, s', w'))))"

text \<open>\<^verbatim>\<open>contentURL\<close>, \<^verbatim>\<open>blurbURL\<close> and \<^verbatim>\<open>thumbnailURL\<close> (lines 252 to 280).\<close>

definition contentURL :: "lib \<Rightarrow> session \<Rightarrow> string \<Rightarrow> string" where
  "contentURL L s ident = Session_transURL L s ident DOWNLOAD [] []"

definition blurbURL :: "lib \<Rightarrow> session \<Rightarrow> string \<Rightarrow> (string \<times> json) list \<Rightarrow> string" where
  "blurbURL L s ident kw = Session_transURL L s ident BLURB [''maxlength'', ''break_paragraphs''] kw"

definition thumbnailURL :: "lib \<Rightarrow> session \<Rightarrow> string \<Rightarrow> (string \<times> json) list \<Rightarrow> error + string" where
  "thumbnailURL L s ident kw =
     (case global_name ''THUMBNAIL'' of
        Inl e \<Rightarrow> Inl e
      | Inr service \<Rightarrow> Inr (Session_transURL L s ident service [''maxwidth'', ''maxheight''] kw))"

text \<open>\<^verbatim>\<open>download\<close>, \<^verbatim>\<open>blurb\<close> and \<^verbatim>\<open>thumbnail\<close> (lines 225 to 249).\<close>

definition download ::
  "lib \<Rightarrow> session \<Rightarrow> net \<Rightarrow> string \<Rightarrow> (error + string \<times> string) \<times> session \<times> net" where
  "download L s w ident = Session_trans L (contentURL L s ident) s w"

definition blurb ::
  "lib \<Rightarrow> session \<Rightarrow> net \<Rightarrow> string \<Rightarrow> (string \<times> json) list
     \<Rightarrow> (error + string \<times> string) \<times> session \<times> net" where
  "blurb L s w ident kw = Session_trans L (blurbURL L s ident kw) s w"

definition thumbnail ::
  "lib \<Rightarrow> session \<Rightarrow> net \<Rightarrow> string \<Rightarrow> (string \<times> json) list
     \<Rightarrow> (error + string \<times> string) \<times> session \<times> net" where
  "thumbnail L s w ident kw =
     (case thumbnailURL L s ident kw of
        Inl e \<Rightarrow> (Inl e, s, w)
      | Inr url \<Rightarrow> Session_trans L url s w)"

section \<open>Response envelopes\<close>

text \<open>
  The two kinds of response envelope: one that carries the success code and a
  \<^verbatim>\<open>result\<close>, and one whose \<^verbatim>\<open>code\<close> is something else.
\<close>

definition delivers :: "json \<Rightarrow> bool" where
  "delivers e =
     (py_getitem e ''code'' = Inr (JStr OK) \<and>
      (case py_getitem e ''result'' of Inl err \<Rightarrow> False | Inr r \<Rightarrow> True))"

definition failed :: "json \<Rightarrow> bool" where
  "failed e = (case py_getitem e ''code'' of Inl err \<Rightarrow> False | Inr c \<Rightarrow> c \<noteq> JStr OK)"

definition result_of :: "json \<Rightarrow> json" where
  "result_of e = (case py_getitem e ''result'' of Inr r \<Rightarrow> r | Inl err \<Rightarrow> JNull)"

text \<open>
  What a reply gives the generator \<^verbatim>\<open>results\<close> when it is a page: a body that parses
  to an envelope with the success code, a \<^verbatim>\<open>result\<close> that can be iterated and a
  \<^verbatim>\<open>cursor\<close>. The value is the items of the page and its cursor.
\<close>

definition page_of :: "lib \<Rightarrow> reply \<Rightarrow> (json list \<times> json) option" where
  "page_of L rp =
     (case rp of
        Failure \<Rightarrow> None
      | Response st hs b \<Rightarrow>
          (case loads L b of
             None \<Rightarrow> None
           | Some env \<Rightarrow>
               if py_getitem env ''code'' = Inr (JStr OK)
               then (case py_getitem env ''result'' of
                       Inl e \<Rightarrow> None
                     | Inr res \<Rightarrow>
                         (case py_iter res of
                            Inl e \<Rightarrow> None
                          | Inr items \<Rightarrow>
                              (case py_getitem env ''cursor'' of
                                 Inl e \<Rightarrow> None
                               | Inr c \<Rightarrow> Some (items, c))))
               else None))"

text \<open>
  The envelope of the request that \<^verbatim>\<open>results\<close> makes with cursor \<open>c\<close> (lines 170 to
  179): the query, the envelope options, and the cursor.
\<close>

definition results_envelope ::
  "session \<Rightarrow> json \<Rightarrow> (string \<times> json) list \<Rightarrow> json \<Rightarrow> (string \<times> json) list" where
  "results_envelope s query kw c =
     AList.update ''cursor'' c (AList.merge [(''query'', query)] (envelope_opts s kw))"

text \<open>
  The events expected of the generator for a sequence of pages, the first request made
  with cursor \<open>c\<close>: for each page the request, with the cursor of the page before, and
  then the items of the page. \<open>url c\<close> is the URL of the request with cursor \<open>c\<close>.
\<close>

fun page_events :: "(json \<Rightarrow> string) \<Rightarrow> json \<Rightarrow> (json list \<times> json) list \<Rightarrow> event list" where
  "page_events url c [] = []"
| "page_events url c (p # ps) = Request (url c) # map Yield (fst p) @ page_events url (snd p) ps"

text \<open>The items that a sequence of events hands to the consumer.\<close>

fun yields :: "event list \<Rightarrow> json list" where
  "yields [] = []"
| "yields (Yield x # es) = x # yields es"
| "yields (Request u # es) = yields es"

section \<open>A concrete exchange\<close>

text \<open>
  A session, a codec and response bodies on which the theorems below are exercised.
  The codec reads the bodies listed in \<open>demo_bodies\<close> and rejects every other text.
  It writes an object in full, strings bare, and request parameters as \<^verbatim>\<open>k=v\<close> joined
  by \<^verbatim>\<open>&\<close>, so that what a request carries can be read off its URL.
\<close>

fun join :: "string \<Rightarrow> string list \<Rightarrow> string" where
  "join sep [] = []"
| "join sep [x] = x"
| "join sep (x # y # ys) = x @ sep @ join sep (y # ys)"

fun render :: "json \<Rightarrow> string" where
  "render JNull = ''null''"
| "render (JBool b) = (if b then ''true'' else ''false'')"
| "render (JInt i) = (if i < 0 then ''-'' @ decimal (nat (- i)) else decimal (nat i))"
| "render (JStr s) = s"
| "render (JArr xs) = ''['' @ join '', '' (map render xs) @ '']''"
| "render (JObj kvs) = ''{'' @ join '', '' (map (\<lambda>(k, v). k @ '': '' @ render v) kvs) @ ''}''"

definition render_params :: "(string \<times> json) list \<Rightarrow> string" where
  "render_params ps = join ''&'' (map (\<lambda>(k, v). k @ ''='' @ render v) ps)"

definition demo_session :: session where
  "demo_session = \<lparr>host = ''api.freebase.com'', options = [(''lang'', JStr ''/lang/en'')], lasturl = None\<rparr>"

definition ok_empty :: json where
  "ok_empty = JObj [(''code'', JStr OK)]"

definition not_found :: json where
  "not_found =
     JObj [(''code'', JStr ''/api/status/error''),
           (''messages'', JArr [JObj [(''code'', JStr ''/api/status/error/notfound''),
                                      (''message'', JStr ''not found'')]])]"

definition ok_with :: "json \<Rightarrow> json" where
  "ok_with r = JObj [(''code'', JStr OK), (''result'', r)]"

definition one_slot :: json where
  "one_slot = JObj [(''code'', JStr OK), (''q0'', ok_with (JStr ''Blonde on Blonde''))]"

definition two_slots :: json where
  "two_slots = JObj [(''q1'', ok_with (JInt 2)), (''code'', JStr OK), (''q0'', ok_with (JInt 1))]"

definition second_fails :: json where
  "second_fails = JObj [(''code'', JStr OK), (''q0'', ok_with (JInt 1)), (''q1'', not_found)]"

definition first_lacks_result :: json where
  "first_lacks_result = JObj [(''code'', JStr OK), (''q0'', JObj [(''code'', JStr OK)]), (''q1'', not_found)]"

definition page1 :: json where
  "page1 = JObj [(''code'', JStr OK), (''result'', JArr [JStr ''a'', JStr ''b'']), (''cursor'', JStr ''tok'')]"

definition page2 :: json where
  "page2 = JObj [(''code'', JStr OK), (''result'', JArr [JStr ''c'']), (''cursor'', JBool False)]"

definition demo_bodies :: "(string \<times> json) list" where
  "demo_bodies =
     [(''ok'', ok_empty), (''notfound'', not_found), (''one'', one_slot), (''two'', two_slots),
      (''second fails'', second_fails), (''first lacks result'', first_lacks_result),
      (''page1'', page1), (''page2'', page2)]"

definition demo_lib :: lib where
  "demo_lib = \<lparr>dumps = render, urlencode = render_params, loads = map_of demo_bodies\<rparr>"

section \<open>Basic facts\<close>

lemma Session_fetch_Response:
  "pending w = Response st hs b # rest \<Longrightarrow>
   Session_fetch L url s w =
     (Session_parsejson L (s\<lparr>lasturl := Some url\<rparr>) b, s\<lparr>lasturl := Some url\<rparr>,
      \<lparr>pending = rest, sent = sent w @ [url]\<rparr>)"
  by (simp add: Session_fetch_def Session_http_def Let_def)

lemma Session_fetch_json:
  "pending w = Response st hs b # rest \<Longrightarrow> loads L b = Some j \<Longrightarrow>
   Session_fetch L url s w =
     (Inr j, s\<lparr>lasturl := Some url\<rparr>, \<lparr>pending = rest, sent = sent w @ [url]\<rparr>)"
  by (simp add: Session_fetch_Response Session_parsejson_def)

lemma Session_check_ok:
  "py_getitem e ''code'' = Inr (JStr OK) \<Longrightarrow> Session_check s e = Inr e"
  by (simp add: Session_check_def)

lemma Session_check_bad:
  "py_getitem e ''code'' = Inr c \<Longrightarrow> c \<noteq> JStr OK \<Longrightarrow> lasturl s = Some u \<Longrightarrow>
   Session_check s e = Inl (ServiceError u e)"
  by (simp add: Session_check_def)

lemma read_collect_append:
  "read_collect s outer (xs @ ys) acc =
     (case read_collect s outer xs acc of Inl e \<Rightarrow> Inl e | Inr acc' \<Rightarrow> read_collect s outer ys acc')"
  by (induction xs arbitrary: acc) (auto split: sum.splits)

lemma read_collect_good:
  assumes "\<forall>i \<in> set xs. py_getitem outer (qname i) = Inr (inner i) \<and>
                        py_getitem (inner i) ''code'' = Inr (JStr OK) \<and>
                        py_getitem (inner i) ''result'' = Inr (res i)"
  shows "read_collect s outer xs acc = Inr (acc @ map res xs)"
  using assms by (induction xs arbitrary: acc) (auto simp: Session_check_ok)

lemma delivers_result: "delivers e \<Longrightarrow> py_getitem e ''result'' = Inr (result_of e)"
  by (auto simp: delivers_def result_of_def split: sum.splits)

lemma delivers_code: "delivers e \<Longrightarrow> py_getitem e ''code'' = Inr (JStr OK)"
  by (simp add: delivers_def)

lemma failedE: "failed e \<Longrightarrow> \<exists>c. py_getitem e ''code'' = Inr c \<and> c \<noteq> JStr OK"
  by (auto simp: failed_def split: sum.splits)

lemma upt_split: "i < n \<Longrightarrow> [0..<n] = [0..<i] @ i # [Suc i..<n]"
  by (metis less_imp_le_nat upt_add_eq_append upt_conv_Cons le_add_diff_inverse zero_le)

lemma read_collect_first_bad:
  assumes i: "i < n"
      and good: "\<forall>j<i. \<exists>e. py_getitem outer (qname j) = Inr e \<and> delivers e"
      and bad: "py_getitem outer (qname i) = Inr e" "failed e"
      and u: "lasturl s = Some u"
  shows "read_collect s outer [0..<n] [] = Inl (ServiceError u e)"
proof -
  from good obtain inner where inner:
    "\<forall>j<i. py_getitem outer (qname j) = Inr (inner j) \<and> delivers (inner j)"
    by metis
  have "\<forall>j \<in> set [0..<i]. py_getitem outer (qname j) = Inr (inner j) \<and>
                        py_getitem (inner j) ''code'' = Inr (JStr OK) \<and>
                        py_getitem (inner j) ''result'' = Inr (result_of (inner j))"
    using inner by (simp add: delivers_result delivers_code)
  then have pre: "read_collect s outer [0..<i] [] = Inr ([] @ map (\<lambda>j. result_of (inner j)) [0..<i])"
    by (rule read_collect_good)
  from failedE [OF bad(2)] obtain c where "py_getitem e ''code'' = Inr c" "c \<noteq> JStr OK"
    by blast
  with bad(1) u have "read_collect s outer (i # [Suc i..<n]) (map (\<lambda>j. result_of (inner j)) [0..<i])
                        = Inl (ServiceError u e)"
    by (simp add: Session_check_bad)
  with pre show ?thesis
    by (simp add: upt_split [OF i] read_collect_append del: read_collect.simps)
qed

lemma read_first_bad:
  assumes "pending w = Response st hs b # rest"
      and "loads L b = Some outer"
      and "py_getitem outer ''code'' = Inr (JStr OK)"
      and "i < length queries"
      and "\<forall>j<i. \<exists>e. py_getitem outer (qname j) = Inr e \<and> delivers e"
      and "py_getitem outer (qname i) = Inr e" and "failed e"
  shows "read L s w queries kw =
           (Inl (ServiceError (read_url L s queries kw) e),
            s\<lparr>lasturl := Some (read_url L s queries kw)\<rparr>,
            \<lparr>pending = rest, sent = sent w @ [read_url L s queries kw]\<rparr>)"
proof -
  have "read_collect (s\<lparr>lasturl := Some (read_url L s queries kw)\<rparr>) outer [0..<length queries] []
          = Inl (ServiceError (read_url L s queries kw) e)"
    by (rule read_collect_first_bad [OF assms(4) assms(5) assms(6) assms(7)]) simp
  then show ?thesis
    using assms(1-3) by (simp add: read_def Let_def Session_fetch_json Session_check_ok)
qed

lemma failed_not_found: "failed not_found"
  by (simp add: failed_def not_found_def OK_def)

lemma qname_0: "qname 0 = ''q0''"
  by code_simp

lemma qname_Suc0: "qname (Suc 0) = ''q1''"
  by code_simp


section \<open>read\<close>

text \<open>
  C10. A call to \<^verbatim>\<open>read\<close> with no query, answered by an outer envelope that carries the
  success code, returns the empty list: it is not an error and nothing is unwrapped.
\<close>

theorem read_no_queries:
  assumes "pending w = Response st hs b # rest"
      and "loads L b = Some outer"
      and "py_getitem outer ''code'' = Inr (JStr OK)"
  shows "read L s w [] kw =
           (Inr (JArr []), s\<lparr>lasturl := Some (read_url L s [] kw)\<rparr>,
            \<lparr>pending = rest, sent = sent w @ [read_url L s [] kw]\<rparr>)"
  using assms by (simp add: read_def Let_def Session_fetch_json Session_check_ok)

theorem read_no_queries_witness:
  "fst (read demo_lib demo_session \<lparr>pending = [Response 200 [] ''ok''], sent = []\<rparr> [] []) = Inr (JArr [])"
  using read_no_queries [of "\<lparr>pending = [Response 200 [] ''ok''], sent = []\<rparr>" 200 "[]" "''ok''" "[]"
                            demo_lib ok_empty demo_session "[]"]
  by (simp add: demo_lib_def demo_bodies_def ok_empty_def)

text \<open>
  C2. When the outer response envelope and the inner envelope of every slot carry the
  success code, \<^verbatim>\<open>read\<close> returns the \<^verbatim>\<open>result\<close> of slot \<^verbatim>\<open>q0\<close> itself if exactly one
  query was submitted, and otherwise the list whose element \<open>i\<close> is the \<^verbatim>\<open>result\<close> of
  slot \<^verbatim>\<open>q<i>\<close>, one element per query, whatever the order of the keys in the response.
\<close>

theorem read_returns_results:
  assumes "pending w = Response st hs b # rest"
      and "loads L b = Some outer"
      and "py_getitem outer ''code'' = Inr (JStr OK)"
      and "\<forall>i<length queries. py_getitem outer (qname i) = Inr (inner i) \<and>
                        py_getitem (inner i) ''code'' = Inr (JStr OK) \<and>
                        py_getitem (inner i) ''result'' = Inr (res i)"
  shows "read L s w queries kw =
           (Inr (if length queries = 1 then res 0 else JArr (map res [0..<length queries])),
            s\<lparr>lasturl := Some (read_url L s queries kw)\<rparr>,
            \<lparr>pending = rest, sent = sent w @ [read_url L s queries kw]\<rparr>)"
proof -
  have "read_collect (s\<lparr>lasturl := Some (read_url L s queries kw)\<rparr>) outer [0..<length queries] []
          = Inr ([] @ map res [0..<length queries])"
    by (rule read_collect_good [where inner = inner]) (use assms(4) in simp)
  then show ?thesis
    using assms(1-3) by (simp add: read_def Let_def Session_fetch_json Session_check_ok)
qed

theorem read_returns_results_witness:
  "fst (read demo_lib demo_session \<lparr>pending = [Response 200 [] ''two''], sent = []\<rparr>
          [JStr ''x'', JStr ''y''] []) = Inr (JArr [JInt 1, JInt 2]) \<and>
   fst (read demo_lib demo_session \<lparr>pending = [Response 200 [] ''one''], sent = []\<rparr>
          [JStr ''x''] []) = Inr (JStr ''Blonde on Blonde'')"
proof
  have "\<forall>i<length [JStr ''x'', JStr ''y''].
          py_getitem two_slots (qname i) = Inr (ok_with (JInt (int i + 1))) \<and>
          py_getitem (ok_with (JInt (int i + 1))) ''code'' = Inr (JStr OK) \<and>
          py_getitem (ok_with (JInt (int i + 1))) ''result'' = Inr (JInt (int i + 1))"
    by (auto simp: less_Suc_eq two_slots_def ok_with_def qname_0 qname_Suc0)
  from read_returns_results [of "\<lparr>pending = [Response 200 [] ''two''], sent = []\<rparr>" 200 "[]" "''two''" "[]"
         demo_lib two_slots "[JStr ''x'', JStr ''y'']" "\<lambda>i. ok_with (JInt (int i + 1))" "\<lambda>i. JInt (int i + 1)"
         demo_session "[]", OF _ _ _ this]
  show "fst (read demo_lib demo_session \<lparr>pending = [Response 200 [] ''two''], sent = []\<rparr>
          [JStr ''x'', JStr ''y''] []) = Inr (JArr [JInt 1, JInt 2])"
    by (simp add: demo_lib_def demo_bodies_def two_slots_def upt_rec)
next
  have "\<forall>i<length [JStr ''x''].
          py_getitem one_slot (qname i) = Inr (ok_with (JStr ''Blonde on Blonde'')) \<and>
          py_getitem (ok_with (JStr ''Blonde on Blonde'')) ''code'' = Inr (JStr OK) \<and>
          py_getitem (ok_with (JStr ''Blonde on Blonde'')) ''result'' = Inr (JStr ''Blonde on Blonde'')"
    by (auto simp: one_slot_def ok_with_def qname_0)
  from read_returns_results [of "\<lparr>pending = [Response 200 [] ''one''], sent = []\<rparr>" 200 "[]" "''one''" "[]"
         demo_lib one_slot "[JStr ''x'']" "\<lambda>i. ok_with (JStr ''Blonde on Blonde'')" "\<lambda>i. JStr ''Blonde on Blonde''"
         demo_session "[]", OF _ _ _ this]
  show "fst (read demo_lib demo_session \<lparr>pending = [Response 200 [] ''one''], sent = []\<rparr>
          [JStr ''x''] []) = Inr (JStr ''Blonde on Blonde'')"
    by (simp add: demo_lib_def demo_bodies_def one_slot_def)
qed




section \<open>Options and request envelopes\<close>

lemma decimal_nonempty: "decimal n \<noteq> []"
  by (subst decimal.simps) simp

lemma digit_inj: "m < 10 \<Longrightarrow> n < 10 \<Longrightarrow> char_of (48 + m) = char_of (48 + n) \<Longrightarrow> m = (n::nat)"
  by (simp add: char_of_eq_iff take_bit_eq_mod)

lemma decimal_inj: "decimal m = decimal n \<Longrightarrow> m = n"
proof (induction m arbitrary: n rule: decimal.induct)
  case (1 m)
  show ?case
  proof (cases "m < 10")
    case True
    then have m: "decimal m = [char_of (48 + m)]" by (subst decimal.simps) simp
    show ?thesis
    proof (cases "n < 10")
      case True
      then have "decimal n = [char_of (48 + n)]" by (subst decimal.simps) simp
      with m "1.prems" \<open>m < 10\<close> True show ?thesis by (simp add: digit_inj)
    next
      case False
      then have "decimal n = decimal (n div 10) @ [char_of (48 + n mod 10)]"
        by (subst decimal.simps) simp
      with m "1.prems" decimal_nonempty [of "n div 10"] show ?thesis by (cases "decimal (n div 10)") simp_all
    qed
  next
    case False
    then have m: "decimal m = decimal (m div 10) @ [char_of (48 + m mod 10)]"
      by (subst decimal.simps) simp
    show ?thesis
    proof (cases "n < 10")
      case True
      then have "decimal n = [char_of (48 + n)]" by (subst decimal.simps) simp
      with m "1.prems" decimal_nonempty [of "m div 10"] show ?thesis by (cases "decimal (m div 10)") simp_all
    next
      case nf: False
      then have "decimal n = decimal (n div 10) @ [char_of (48 + n mod 10)]"
        by (subst decimal.simps) simp
      with m "1.prems" have eq: "decimal (m div 10) = decimal (n div 10)"
        and d: "char_of (48 + m mod 10) = char_of (48 + n mod 10)" by simp_all
      from "1.IH" [OF False eq] have "m div 10 = n div 10" .
      moreover from d have "m mod 10 = n mod 10" by (intro digit_inj) simp_all
      ultimately show ?thesis by (metis div_mult_mod_eq)
    qed
  qed
qed

lemma qname_inj: "qname i = qname j \<Longrightarrow> i = j"
  by (simp add: qname_def decimal_inj)

lemma map_of_slots:
  "i < n \<Longrightarrow> map_of (foldl (\<lambda>outer j. AList.update (qname j) (f j) outer) [] [0..<n]) (qname i) = Some (f i)"
proof (induction n)
  case 0
  then show ?case by simp
next
  case (Suc n)
  show ?case
  proof (cases "i = n")
    case True
    then show ?thesis by (simp add: update_conv')
  next
    case False
    with Suc.prems have "i < n" by simp
    moreover from False have "qname n \<noteq> qname i" using qname_inj by blast
    ultimately show ?thesis using Suc.IH by (simp add: update_conv')
  qed
qed

lemma read_build_slot:
  "i < length queries \<Longrightarrow>
   map_of (read_build queries opts) (qname i) = Some (JObj (AList.merge [(''query'', queries ! i)] opts))"
  unfolding read_build_def by (rule map_of_slots)

lemma map_of_session_defaults:
  "map_of (foldl (\<lambda>acc k. case map_of d k of None \<Rightarrow> acc | Some v \<Rightarrow> AList.update k v acc) acc keys) k =
     (if k \<in> set keys then (case map_of d k of None \<Rightarrow> map_of acc k | Some v \<Rightarrow> Some v)
      else map_of acc k)"
  by (induction keys arbitrary: acc) (auto simp: update_conv' split: option.splits)

lemma map_of_getopts:
  "map_of (Session_getopts s keys kw) k =
     (case map_of kw k of
        Some v \<Rightarrow> Some v
      | None \<Rightarrow> if k \<in> set keys then map_of (options s) k else None)"
  by (simp add: Session_getopts_def merge_conv' map_add_def map_of_session_defaults
           split: option.splits)

lemma Session_fetch_sent: "sent (snd (snd (Session_fetch L url s w))) = sent w @ [url]"
  by (simp add: Session_fetch_def Session_http_def Let_def split: list.splits reply.splits)

lemma read_sent: "sent (snd (snd (read L s w queries kw))) = sent w @ [read_url L s queries kw]"
  using Session_fetch_sent [of L "read_url L s queries kw" s w]
  by (auto simp: read_def Let_def split: prod.splits sum.splits)

text \<open>
  C9. For each of the keys \<^verbatim>\<open>lang\<close>, \<^verbatim>\<open>as_of_time\<close>, \<^verbatim>\<open>escape\<close> and
  \<^verbatim>\<open>uniqueness_failure\<close>, the inner envelope of every slot of the request that \<^verbatim>\<open>read\<close>
  sends maps the key to the value passed in the call if there is one, otherwise to the
  session's value if the session has one, and otherwise has no such key; every inner
  envelope is the query of its slot updated with the same merged options.
\<close>

theorem read_merged_options:
  assumes "k \<in> set [''lang'', ''as_of_time'', ''escape'', ''uniqueness_failure'']"
      and "i < length queries"
  shows "sent (snd (snd (read L s w queries kw))) =
           sent w @ [''http://'' @ host s @ READ @ ''?'' @
                     urlencode L [(''queries'', JStr (dumps L (JObj (read_build queries (envelope_opts s kw)))))]] \<and>
         map_of (read_build queries (envelope_opts s kw)) (qname i) =
           Some (JObj (AList.merge [(''query'', queries ! i)] (envelope_opts s kw))) \<and>
         map_of (AList.merge [(''query'', queries ! i)] (envelope_opts s kw)) k =
           (case map_of kw k of Some v \<Rightarrow> Some v | None \<Rightarrow> map_of (options s) k)"
proof (intro conjI)
  show "sent (snd (snd (read L s w queries kw))) =
           sent w @ [''http://'' @ host s @ READ @ ''?'' @
                     urlencode L [(''queries'', JStr (dumps L (JObj (read_build queries (envelope_opts s kw)))))]]"
    by (simp add: read_sent read_url_def Let_def Session_dumpjson_def)
  show "map_of (read_build queries (envelope_opts s kw)) (qname i) =
           Some (JObj (AList.merge [(''query'', queries ! i)] (envelope_opts s kw)))"
    using assms(2) by (rule read_build_slot)
  have "k \<noteq> ''query''" using assms(1) by auto
  then have "map_of (AList.merge [(''query'', queries ! i)] (envelope_opts s kw)) k =
               map_of (envelope_opts s kw) k"
    by (simp add: merge_conv' map_add_def split: option.splits)
  also have "\<dots> = (case map_of kw k of Some v \<Rightarrow> Some v | None \<Rightarrow> map_of (options s) k)"
    using assms(1) by (simp add: envelope_opts_def map_of_getopts split: option.splits)
  finally show "map_of (AList.merge [(''query'', queries ! i)] (envelope_opts s kw)) k =
           (case map_of kw k of Some v \<Rightarrow> Some v | None \<Rightarrow> map_of (options s) k)" .
qed

theorem read_merged_options_witness:
  "map_of (AList.merge [(''query'', [JNull, JNull] ! 1)] (envelope_opts demo_session [])) ''lang''
     = Some (JStr ''/lang/en'') \<and>
   map_of (AList.merge [(''query'', [JNull, JNull] ! 1)]
            (envelope_opts demo_session [(''lang'', JStr ''/lang/fr'')])) ''lang''
     = Some (JStr ''/lang/fr'') \<and>
   map_of (AList.merge [(''query'', [JNull, JNull] ! 1)] (envelope_opts demo_session [])) ''escape''
     = None"
  using read_merged_options [of "''lang''" 1 "[JNull, JNull]" demo_lib demo_session "\<lparr>pending = [], sent = []\<rparr>" "[]"]
        read_merged_options [of "''lang''" 1 "[JNull, JNull]" demo_lib demo_session "\<lparr>pending = [], sent = []\<rparr>"
                                "[(''lang'', JStr ''/lang/fr'')]"]
        read_merged_options [of "''escape''" 1 "[JNull, JNull]" demo_lib demo_session "\<lparr>pending = [], sent = []\<rparr>" "[]"]
  by (simp add: demo_session_def)

section \<open>search\<close>

lemma search_sent: "sent (snd (snd (search L s w query kw))) = sent w @ [search_url L s query kw]"
  using Session_fetch_sent [of L "search_url L s query kw" s w]
  by (auto simp: search_def split: prod.splits sum.splits)

text \<open>
  C6, as the code has it. A query string that ends in \<^verbatim>\<open>*\<close> is sent without the
  asterisk as the \<^verbatim>\<open>prefix\<close> parameter, and no \<^verbatim>\<open>query\<close> parameter is sent. Any other
  query string is sent as the \<^verbatim>\<open>query\<close> parameter; a \<^verbatim>\<open>prefix\<close> parameter is then sent
  exactly when the caller passed one among the named options of the call, with the
  caller's value. (The named options of a call to \<^verbatim>\<open>search\<close> cannot contain \<^verbatim>\<open>query\<close>,
  which is a parameter of the method.)
\<close>

theorem search_parameters:
  assumes "map_of kw ''query'' = None"
  shows "sent (snd (snd (search L s w query kw))) =
           sent w @ [''http://'' @ host s @ SEARCH @ ''?'' @ urlencode L (search_opts s query kw)] \<and>
         (query \<noteq> [] \<and> last query = CHR ''*'' \<longrightarrow>
            map_of (search_opts s query kw) ''prefix'' = Some (JStr (butlast query)) \<and>
            map_of (search_opts s query kw) ''query'' = None) \<and>
         (\<not> (query \<noteq> [] \<and> last query = CHR ''*'') \<longrightarrow>
            map_of (search_opts s query kw) ''query'' = Some (JStr query) \<and>
            map_of (search_opts s query kw) ''prefix'' = map_of kw ''prefix'')"
  using assms
  by (simp add: search_sent search_url_def search_opts_def update_conv' map_of_getopts
           split: option.splits)

theorem search_parameters_witness:
  "map_of (search_opts demo_session ''foo*'' [(''limit'', JInt 5)]) ''prefix'' = Some (JStr ''foo'') \<and>
   map_of (search_opts demo_session ''foo*'' [(''limit'', JInt 5)]) ''query'' = None \<and>
   map_of (search_opts demo_session ''foo'' [(''limit'', JInt 5)]) ''query'' = Some (JStr ''foo'') \<and>
   map_of (search_opts demo_session ''foo'' [(''limit'', JInt 5)]) ''prefix'' = None"
  using search_parameters [of "[(''limit'', JInt 5)]" demo_lib demo_session "\<lparr>pending = [], sent = []\<rparr>" "''foo*''"]
        search_parameters [of "[(''limit'', JInt 5)]" demo_lib demo_session "\<lparr>pending = [], sent = []\<rparr>" "''foo''"]
  by simp

text \<open>
  The claim as it is written fails for a query without asterisk when the caller passes
  a \<^verbatim>\<open>prefix\<close> option: both parameters are sent.
\<close>

theorem search_prefix_counterexample:
  "\<not> (''foo'' \<noteq> [] \<and> last ''foo'' = CHR ''*'') \<and>
   map_of (search_opts demo_session ''foo'' [(''prefix'', JStr ''bar'')]) ''query'' = Some (JStr ''foo'') \<and>
   map_of (search_opts demo_session ''foo'' [(''prefix'', JStr ''bar'')]) ''prefix'' = Some (JStr ''bar'')"
  by (simp add: search_opts_def update_conv' map_of_getopts)

section \<open>ServiceError as a string\<close>

text \<open>
  C7. For a ServiceError made from a URL and an envelope whose \<^verbatim>\<open>messages\<close> array is not
  empty and starts with a message of a \<^verbatim>\<open>code\<close> and a \<^verbatim>\<open>message\<close> text, the string form
  is the URL cut before its first question mark, then a colon and a space, the code, a
  colon and a space, and the text; the part taken from the URL has no question mark.
\<close>

theorem ServiceError_str_format:
  assumes "py_getitem details ''messages'' = Inr (JArr (m # ms))"
      and "py_getitem m ''code'' = Inr (JStr c)"
      and "py_getitem m ''message'' = Inr (JStr t)"
  shows "\<exists>prefix rest.
           ServiceError_str url details = Inr (prefix @ '': '' @ c @ '': '' @ t) \<and>
           url = prefix @ rest \<and> CHR ''?'' \<notin> set prefix \<and> (rest = [] \<or> hd rest = CHR ''?'')"
proof (intro exI conjI)
  show "ServiceError_str url details =
          Inr (takeWhile (\<lambda>x. x \<noteq> CHR ''?'') url @ '': '' @ c @ '': '' @ t)"
    using assms by (simp add: ServiceError_str_def)
  show "url = takeWhile (\<lambda>x. x \<noteq> CHR ''?'') url @ dropWhile (\<lambda>x. x \<noteq> CHR ''?'') url"
    by simp
  show "CHR ''?'' \<notin> set (takeWhile (\<lambda>x. x \<noteq> CHR ''?'') url)"
    by (auto dest: set_takeWhileD)
  show "dropWhile (\<lambda>x. x \<noteq> CHR ''?'') url = [] \<or> hd (dropWhile (\<lambda>x. x \<noteq> CHR ''?'') url) = CHR ''?''"
    using hd_dropWhile [of "\<lambda>x. x \<noteq> CHR ''?''" url] by auto
qed

theorem ServiceError_str_format_witness:
  "ServiceError_str ''http://api.freebase.com/api/trans/raw/x?queries=q'' not_found =
     Inr ''http://api.freebase.com/api/trans/raw/x: /api/status/error/notfound: not found''"
  using ServiceError_str_format [of not_found
          "JObj [(''code'', JStr ''/api/status/error/notfound''), (''message'', JStr ''not found'')]" "[]"
          "''/api/status/error/notfound''" "''not found''" "''http://api.freebase.com/api/trans/raw/x?queries=q''"]
  by (simp add: not_found_def ServiceError_str_def)

section \<open>The trans services\<close>

lemma global_THUMBNAIL: "global_name ''THUMBNAIL'' = Inl (NameError ''THUMBNAIL'')"
  by (simp add: global_name_def module_globals_def)

text \<open>
  C8. Whatever the id and the options, \<^verbatim>\<open>thumbnailURL\<close> raises NameError for the name
  \<^verbatim>\<open>THUMBNAIL\<close> and returns no URL, and so does \<^verbatim>\<open>thumbnail\<close>, without sending a request:
  the module binds \<^verbatim>\<open>THUMB\<close> and no \<^verbatim>\<open>THUMBNAIL\<close>.
\<close>

theorem thumbnailURL_name_error:
  "thumbnailURL L s ident kw = Inl (NameError ''THUMBNAIL'') \<and>
   thumbnail L s w ident kw = (Inl (NameError ''THUMBNAIL''), s, w) \<and>
   map_of module_globals ''THUMBNAIL'' = None \<and>
   map_of module_globals ''THUMB'' = Some ''/api/trans/image_thumb''"
  by (simp add: thumbnail_def thumbnailURL_def global_THUMBNAIL module_globals_def THUMB_def)

lemma Session_trans_ok:
  assumes "pending w = Response 200 hs b # rest" and "map_of hs ''content-type'' = Some t"
  shows "Session_trans L url s w =
           (Inr (b, t), s\<lparr>lasturl := Some url\<rparr>, \<lparr>pending = rest, sent = sent w @ [url]\<rparr>)"
  using assms by (simp add: Session_trans_def Session_http_def Let_def)

lemma Session_trans_error_envelope:
  assumes "pending w = Response st hs b # rest" and "st \<noteq> 200" and "loads L b = Some envelope"
  shows "Session_trans L url s w =
           (Inl (ServiceError url envelope), s\<lparr>lasturl := Some url\<rparr>,
            \<lparr>pending = rest, sent = sent w @ [url]\<rparr>)"
  using assms by (simp add: Session_trans_def Session_http_def Let_def Session_parsejson_def)

lemma Session_trans_unparseable:
  assumes "pending w = Response st hs b # rest" and "st \<noteq> 200" and "loads L b = None"
  shows "Session_trans L url s w =
           (Inl (InternalServiceError url
                  (JObj [(''code'', JStr ''Internal service error''),
                         (''messages'', JArr [JObj [(''code'', JStr ''Unparseable response''),
                                                    (''message'', JStr b)]])])),
            s\<lparr>lasturl := Some url\<rparr>, \<lparr>pending = rest, sent = sent w @ [url]\<rparr>)"
  using assms
  by (simp add: Session_trans_def Session_http_def Let_def Session_parsejson_def
        InternalServiceError_init_def)

text \<open>
  What C5 says holds for \<^verbatim>\<open>download\<close> and \<^verbatim>\<open>blurb\<close>, whose URLs are
  \<open>contentURL\<close> and \<open>blurbURL\<close>.
\<close>

lemma download_blurb_contract:
  assumes "pending w = Response st hs b # rest"
      and "url = contentURL L s ident \<and> r = download L s w ident \<or>
           url = blurbURL L s ident kw \<and> r = blurb L s w ident kw"
  shows "(st = 200 \<and> map_of hs ''content-type'' = Some t \<longrightarrow> fst r = Inr (b, t)) \<and>
         (st \<noteq> 200 \<and> loads L b = Some envelope \<longrightarrow> fst r = Inl (ServiceError url envelope)) \<and>
         (st \<noteq> 200 \<and> loads L b = None \<longrightarrow> fst r = Inl (InternalServiceError_init url b))"
  using assms
  by (auto simp: download_def blurb_def Session_trans_ok Session_trans_error_envelope
        Session_trans_unparseable InternalServiceError_init_def)

text \<open>
  C5 fails for \<^verbatim>\<open>thumbnail\<close>: with a server ready to answer 200 and a content type,
  the call raises NameError and the reply is never fetched.
\<close>

theorem thumbnail_never_fetches:
  "thumbnail demo_lib demo_session
     \<lparr>pending = [Response 200 [(''content-type'', ''image/jpeg'')] ''JFIF''], sent = []\<rparr> ''/en/u2'' [] =
   (Inl (NameError ''THUMBNAIL''), demo_session,
    \<lparr>pending = [Response 200 [(''content-type'', ''image/jpeg'')] ''JFIF''], sent = []\<rparr>)"
  by (simp add: thumbnail_def thumbnailURL_def global_THUMBNAIL)

section \<open>results\<close>

lemma results_url_lasturl: "results_url L (s\<lparr>lasturl := u\<rparr>) e = results_url L s e"
  by (simp add: results_url_def)

lemma results_loop_stop:
  "\<not> truthy cursor \<Longrightarrow> results_loop L s w envelope cursor acc = (acc, None, s, w)"
  by (subst results_loop.simps) simp

lemma page_ofE:
  assumes "page_of L rp = Some (items, c)"
  obtains st hs b env res where "rp = Response st hs b" "loads L b = Some env"
    "py_getitem env ''code'' = Inr (JStr OK)" "py_getitem env ''result'' = Inr res"
    "py_iter res = Inr items" "py_getitem env ''cursor'' = Inr c"
  using assms
  by (auto simp: page_of_def split: reply.splits option.splits if_splits sum.splits)

lemma results_loop_page:
  assumes "truthy cursor" and "pending w = rp # rest" and "page_of L rp = Some (items, c)"
  shows "results_loop L s w envelope cursor acc =
           results_loop L (s\<lparr>lasturl := Some (results_url L s (AList.update ''cursor'' cursor envelope))\<rparr>)
             \<lparr>pending = rest, sent = sent w @ [results_url L s (AList.update ''cursor'' cursor envelope)]\<rparr>
             (AList.update ''cursor'' cursor envelope) c
             (acc @ Request (results_url L s (AList.update ''cursor'' cursor envelope)) # map Yield items)"
proof -
  from assms(3) obtain st hs b env res where rp: "rp = Response st hs b" "loads L b = Some env"
    "py_getitem env ''code'' = Inr (JStr OK)" "py_getitem env ''result'' = Inr res"
    "py_iter res = Inr items" "py_getitem env ''cursor'' = Inr c"
    by (rule page_ofE)
  from assms(2) rp(1) have "pending w = Response st hs b # rest" by simp
  from Session_fetch_json [OF this rp(2)] assms(1) rp(3-6) show ?thesis
    by (subst results_loop.simps) (simp add: Let_def Session_check_ok)
qed

lemma results_loop_pages:
  assumes "truthy cursor"
      and "pending w = rps @ rest"
      and "map (page_of L) rps = map Some pages"
      and "pages \<noteq> []"
      and "\<forall>p\<in>set (butlast pages). truthy (snd p)"
      and "\<not> truthy (snd (last pages))"
  shows "results_loop L s w envelope cursor acc =
           (acc @ page_events (\<lambda>c. results_url L s (AList.update ''cursor'' c envelope)) cursor pages, None,
            s\<lparr>lasturl := Some (results_url L s (AList.update ''cursor'' (last (cursor # map snd (butlast pages))) envelope))\<rparr>,
            \<lparr>pending = rest,
             sent = sent w @ map (\<lambda>c. results_url L s (AList.update ''cursor'' c envelope))
                              (cursor # map snd (butlast pages))\<rparr>)"
  using assms
proof (induction pages arbitrary: s w envelope cursor acc rps)
  case Nil
  then show ?case by simp
next
  case (Cons p ps)
  note prems = Cons.prems
  obtain items c where p: "p = (items, c)" by (cases p)
  from Cons.prems(3) obtain rp rps' where rps: "rps = rp # rps'" "page_of L rp = Some (items, c)"
    "map (page_of L) rps' = map Some ps"
    by (cases rps) (auto simp: p)
  from Cons.prems(2) rps(1) have pend: "pending w = rp # (rps' @ rest)" by simp
  note step = results_loop_page [OF Cons.prems(1) pend rps(2), of s envelope acc]
  show ?case
  proof (cases ps)
    case Nil
    with Cons.prems(6) p have "\<not> truthy c" by simp
    with step Nil rps(3) p show ?thesis by (simp add: results_loop_stop)
  next
    case more: (Cons q qs)
    with prems(5) p have c: "truthy c" by simp
    have ih: "results_loop L s' w' envelope' c acc' =
           (acc' @ page_events (\<lambda>c. results_url L s' (AList.update ''cursor'' c envelope')) c ps, None,
            s'\<lparr>lasturl := Some (results_url L s' (AList.update ''cursor'' (last (c # map snd (butlast ps))) envelope'))\<rparr>,
            \<lparr>pending = rest,
             sent = sent w' @ map (\<lambda>c. results_url L s' (AList.update ''cursor'' c envelope'))
                              (c # map snd (butlast ps))\<rparr>)"
      if "pending w' = rps' @ rest" for s' w' envelope' acc'
      by (rule Cons.IH [OF c that rps(3)]) (use more prems in auto)
    show ?thesis
      unfolding step
      by (subst ih) (simp_all add: p more results_url_lasturl)
  qed
qed


lemma Session_check_Inr_iff:
  "Session_check s e = Inr r \<longleftrightarrow> r = e \<and> py_getitem e ''code'' = Inr (JStr OK)"
  by (auto simp: Session_check_def split: sum.splits if_splits option.splits)

lemma Session_fetch_InrD:
  "Session_fetch L url s w = (Inr j, s', w') \<Longrightarrow>
   \<exists>st hs b. pending w = Response st hs b # pending w' \<and> loads L b = Some j"
  by (auto simp: Session_fetch_def Session_http_def Let_def Session_parsejson_def
           split: list.splits reply.splits option.splits)

lemma results_loop_unfold:
  assumes "truthy cursor"
      and "Session_fetch L (results_url L s (AList.update ''cursor'' cursor envelope)) s w = (r, s1, w1)"
  shows "results_loop L s w envelope cursor acc =
           (case r of
              Inl e \<Rightarrow> (acc @ [Request (results_url L s (AList.update ''cursor'' cursor envelope))], Some e, s1, w1)
            | Inr fetched \<Rightarrow>
                (case Session_check s1 fetched of
                   Inl e \<Rightarrow> (acc @ [Request (results_url L s (AList.update ''cursor'' cursor envelope))], Some e, s1, w1)
                 | Inr response \<Rightarrow>
                     (case py_getitem response ''result'' of
                        Inl e \<Rightarrow> (acc @ [Request (results_url L s (AList.update ''cursor'' cursor envelope))], Some e, s1, w1)
                      | Inr res \<Rightarrow>
                          (case py_iter res of
                             Inl e \<Rightarrow> (acc @ [Request (results_url L s (AList.update ''cursor'' cursor envelope))], Some e, s1, w1)
                           | Inr items \<Rightarrow>
                               (case py_getitem response ''cursor'' of
                                  Inl e \<Rightarrow>
                                    (acc @ Request (results_url L s (AList.update ''cursor'' cursor envelope)) # map Yield items,
                                     Some e, s1, w1)
                                | Inr c \<Rightarrow>
                                    results_loop L s1 w1 (AList.update ''cursor'' cursor envelope) c
                                      (acc @ Request (results_url L s (AList.update ''cursor'' cursor envelope)) # map Yield items))))))"
  using assms by (subst results_loop.simps) (simp add: Let_def split: sum.splits)

lemma results_loop_returned_step:
  assumes t: "truthy cursor"
      and f: "Session_fetch L (results_url L s (AList.update ''cursor'' cursor envelope)) s w = (r, s1, w1)"
      and ret: "results_loop L s w envelope cursor acc = (ys, None, s', w')"
  shows "\<exists>fetched res items c.
          r = Inr fetched \<and> py_getitem fetched ''code'' = Inr (JStr OK) \<and>
          py_getitem fetched ''result'' = Inr res \<and> py_iter res = Inr items \<and>
          py_getitem fetched ''cursor'' = Inr c \<and>
          results_loop L s1 w1 (AList.update ''cursor'' cursor envelope) c
            (acc @ Request (results_url L s (AList.update ''cursor'' cursor envelope)) # map Yield items)
            = (ys, None, s', w')"
proof (cases r)
  case (Inl e)
  with results_loop_unfold [OF t f, of acc] ret show ?thesis by simp
next
  case r: (Inr fetched)
  show ?thesis
  proof (cases "Session_check s1 fetched")
    case (Inl e)
    with results_loop_unfold [OF t f, of acc] ret r show ?thesis by simp
  next
    case chk: (Inr response)
    then have resp: "response = fetched" and code: "py_getitem fetched ''code'' = Inr (JStr OK)"
      by (simp_all add: Session_check_Inr_iff)
    show ?thesis
    proof (cases "py_getitem fetched ''result''")
      case (Inl e)
      with results_loop_unfold [OF t f, of acc] ret r chk resp show ?thesis by simp
    next
      case res: (Inr res)
      show ?thesis
      proof (cases "py_iter res")
        case (Inl e)
        with results_loop_unfold [OF t f, of acc] ret r chk resp res show ?thesis by simp
      next
        case items: (Inr items)
        show ?thesis
        proof (cases "py_getitem fetched ''cursor''")
          case (Inl e)
          with results_loop_unfold [OF t f, of acc] ret r chk resp res items show ?thesis by simp
        next
          case c: (Inr c)
          with results_loop_unfold [OF t f, of acc] ret r chk resp res items
          have "results_loop L s1 w1 (AList.update ''cursor'' cursor envelope) c
                  (acc @ Request (results_url L s (AList.update ''cursor'' cursor envelope)) # map Yield items)
                  = (ys, None, s', w')"
            by simp
          with r code res items c show ?thesis by blast
        qed
      qed
    qed
  qed
qed

lemma results_loop_returns:
  assumes "results_loop L s w envelope cursor acc = (ys, None, s', w')" and "truthy cursor"
  shows "\<exists>rps pages. pending w = rps @ pending w' \<and> map (page_of L) rps = map Some pages \<and>
           pages \<noteq> [] \<and> (\<forall>p\<in>set (butlast pages). truthy (snd p)) \<and> \<not> truthy (snd (last pages))"
  using assms
proof (induction "pending w" arbitrary: s w envelope cursor acc)
  case Nil
  then show ?case
    by (subst (asm) results_loop.simps)
       (simp add: Session_fetch_def Session_http_def Let_def)
next
  case (Cons rp rest)
  let ?env = "AList.update ''cursor'' cursor envelope"
  let ?url = "results_url L s ?env"
  obtain r s1 w1 where f: "Session_fetch L ?url s w = (r, s1, w1)"
    by (cases "Session_fetch L ?url s w") auto
  from results_loop_returned_step [OF Cons.prems(2) f Cons.prems(1)]
  obtain fetched res items c where
        r: "r = Inr fetched"
    and chk: "py_getitem fetched ''code'' = Inr (JStr OK)"
    and res: "py_getitem fetched ''result'' = Inr res"
    and items: "py_iter res = Inr items"
    and c: "py_getitem fetched ''cursor'' = Inr c"
    and rec: "results_loop L s1 w1 ?env c (acc @ Request ?url # map Yield items) = (ys, None, s', w')"
    by blast
  from Session_fetch_InrD [OF f [unfolded r]] obtain st hs b where
    pend: "pending w = Response st hs b # pending w1" and body: "loads L b = Some fetched"
    by blast
  from Cons.hyps(2) pend have rp: "rp = Response st hs b" and rest: "rest = pending w1"
    by simp_all
  from chk body res items c
  have page: "page_of L rp = Some (items, c)"
    by (simp add: page_of_def rp)
  show ?case
  proof (cases "truthy c")
    case False
    with rec have "w' = w1" by (simp add: results_loop_stop)
    with pend rp page False show ?thesis
      by (intro exI [of _ "[rp]"] exI [of _ "[(items, c)]"]) simp
  next
    case True
    from Cons.hyps(1) [OF rest rec True] obtain rps pages where
      ih: "pending w1 = rps @ pending w'" "map (page_of L) rps = map Some pages" "pages \<noteq> []"
          "\<forall>p\<in>set (butlast pages). truthy (snd p)" "\<not> truthy (snd (last pages))"
      by blast
    with pend rp page True show ?thesis
      by (intro exI [of _ "rp # rps"] exI [of _ "(items, c) # pages"]) simp
  qed
qed


lemma results_envelope_lookup:
  "map_of (results_envelope s query kw c) k =
     (if k = ''cursor'' then Some c
      else case map_of (envelope_opts s kw) k of
             Some v \<Rightarrow> Some v
           | None \<Rightarrow> if k = ''query'' then Some query else None)"
  by (simp add: results_envelope_def update_conv' merge_conv' map_add_def split: option.splits)

lemma yields_append: "yields (xs @ ys) = yields xs @ yields ys"
  by (induction xs rule: yields.induct) simp_all

lemma yields_Yield: "yields (map Yield xs) = xs"
  by (induction xs) simp_all

lemma yields_page_events: "yields (page_events url c pages) = concat (map fst pages)"
  by (induction pages arbitrary: c) (simp_all add: yields_append yields_Yield)

text \<open>
  C1. The request that the generator makes with cursor \<open>c\<close> goes to the read service
  with one parameter \<^verbatim>\<open>query\<close>, the JSON text of an envelope. In that envelope
  \<^verbatim>\<open>cursor\<close> is \<open>c\<close>, and every other key has a value that does not depend on \<open>c\<close>: an
  option of the call, else for \<^verbatim>\<open>query\<close> the query body, else for a recognized key the
  session's default. When the server answers with pages, the cursors of all but the
  last being true values and the cursor of the last a false one, the generator sends
  the first request with the cursor \<^verbatim>\<open>True\<close>, yields the items of the page it receives
  in their order, then sends the next request with the cursor of that page, and so on;
  after the items of the last page it stops, with no further request, and leaves the
  rest of the server's replies untouched. The items yielded are those of all pages in
  order. Conversely, when the generator stops without an exception, the replies it
  consumed were such pages, the last with a false cursor.
\<close>

theorem results_pagination:
  "(let url = (\<lambda>c. ''http://'' @ host s @ ''/api/service/mqlread'' @ ''?'' @
                    urlencode L [(''query'', JStr (dumps L (JObj (results_envelope s query kw c))))])
    in (pending w = rps @ rest \<and> map (page_of L) rps = map Some pages \<and> pages \<noteq> [] \<and>
        (\<forall>p\<in>set (butlast pages). truthy (snd p)) \<and> \<not> truthy (snd (last pages)) \<longrightarrow>
          results L s w query kw =
            (page_events url (JBool True) pages, None,
             s\<lparr>lasturl := Some (url (last (JBool True # map snd (butlast pages))))\<rparr>,
             \<lparr>pending = rest, sent = sent w @ map url (JBool True # map snd (butlast pages))\<rparr>) \<and>
          yields (fst (results L s w query kw)) = concat (map fst pages))) \<and>
   (fst (snd (results L s w query kw)) = None \<longrightarrow>
      (\<exists>rps pages.
         pending w = rps @ pending (snd (snd (snd (results L s w query kw)))) \<and>
         map (page_of L) rps = map Some pages \<and> pages \<noteq> [] \<and>
         (\<forall>p\<in>set (butlast pages). truthy (snd p)) \<and> \<not> truthy (snd (last pages)))) \<and>
   map_of (results_envelope s query kw c) k =
     (if k = ''cursor'' then Some c
      else case map_of kw k of
             Some v \<Rightarrow> Some v
           | None \<Rightarrow>
               if k = ''query'' then Some query
               else if k \<in> set [''lang'', ''as_of_time'', ''escape'', ''uniqueness_failure'']
                    then map_of (options s) k
                    else None)"
proof (intro conjI impI)
  show "let url = (\<lambda>c. ''http://'' @ host s @ ''/api/service/mqlread'' @ ''?'' @
                    urlencode L [(''query'', JStr (dumps L (JObj (results_envelope s query kw c))))])
    in (pending w = rps @ rest \<and> map (page_of L) rps = map Some pages \<and> pages \<noteq> [] \<and>
        (\<forall>p\<in>set (butlast pages). truthy (snd p)) \<and> \<not> truthy (snd (last pages)) \<longrightarrow>
          results L s w query kw =
            (page_events url (JBool True) pages, None,
             s\<lparr>lasturl := Some (url (last (JBool True # map snd (butlast pages))))\<rparr>,
             \<lparr>pending = rest, sent = sent w @ map url (JBool True # map snd (butlast pages))\<rparr>) \<and>
          yields (fst (results L s w query kw)) = concat (map fst pages))"
    unfolding Let_def
  proof (intro impI)
    assume "pending w = rps @ rest \<and> map (page_of L) rps = map Some pages \<and> pages \<noteq> [] \<and>
      (\<forall>p\<in>set (butlast pages). truthy (snd p)) \<and> \<not> truthy (snd (last pages))"
    then have a: "pending w = rps @ rest" "map (page_of L) rps = map Some pages" "pages \<noteq> []"
      "\<forall>p\<in>set (butlast pages). truthy (snd p)" "\<not> truthy (snd (last pages))"
      by simp_all
    have url: "results_url L s (results_envelope s query kw c) =
                 ''http://'' @ host s @ ''/api/service/mqlread'' @ ''?'' @
                 urlencode L [(''query'', JStr (dumps L (JObj (results_envelope s query kw c))))]" for c
      by (simp add: results_url_def Session_dumpjson_def READ_def)
    have "truthy (JBool True)" by simp
    from results_loop_pages [OF this a, of s "AList.merge [(''query'', query)] (envelope_opts s kw)" "[]"]
    have run: "results L s w query kw =
          (page_events (\<lambda>c. results_url L s (results_envelope s query kw c)) (JBool True) pages, None,
           s\<lparr>lasturl := Some (results_url L s
                       (results_envelope s query kw (last (JBool True # map snd (butlast pages)))))\<rparr>,
           \<lparr>pending = rest,
            sent = sent w @ map (\<lambda>c. results_url L s (results_envelope s query kw c))
                             (JBool True # map snd (butlast pages))\<rparr>)"
      by (simp add: results_def results_envelope_def Let_def)
    show "results L s w query kw =
            (page_events (\<lambda>c. ''http://'' @ host s @ ''/api/service/mqlread'' @ ''?'' @
                    urlencode L [(''query'', JStr (dumps L (JObj (results_envelope s query kw c))))])
               (JBool True) pages, None,
             s\<lparr>lasturl := Some (''http://'' @ host s @ ''/api/service/mqlread'' @ ''?'' @
                    urlencode L [(''query'', JStr (dumps L (JObj (results_envelope s query kw
                       (last (JBool True # map snd (butlast pages)))))))])\<rparr>,
             \<lparr>pending = rest,
              sent = sent w @ map (\<lambda>c. ''http://'' @ host s @ ''/api/service/mqlread'' @ ''?'' @
                    urlencode L [(''query'', JStr (dumps L (JObj (results_envelope s query kw c))))])
                 (JBool True # map snd (butlast pages))\<rparr>) \<and>
          yields (fst (results L s w query kw)) = concat (map fst pages)"
      unfolding run url by (simp add: yields_page_events)
  qed
next
  assume n: "fst (snd (results L s w query kw)) = None"
  obtain ys s' w' where r: "results L s w query kw = (ys, None, s', w')"
    using n by (cases "results L s w query kw") auto
  then have "results_loop L s w (AList.merge [(''query'', query)] (envelope_opts s kw)) (JBool True) []
               = (ys, None, s', w')"
    by (simp add: results_def Let_def)
  from results_loop_returns [OF this] r
  show "\<exists>rps pages.
         pending w = rps @ pending (snd (snd (snd (results L s w query kw)))) \<and>
         map (page_of L) rps = map Some pages \<and> pages \<noteq> [] \<and>
         (\<forall>p\<in>set (butlast pages). truthy (snd p)) \<and> \<not> truthy (snd (last pages))"
    by simp
next
  show "map_of (results_envelope s query kw c) k =
     (if k = ''cursor'' then Some c
      else case map_of kw k of
             Some v \<Rightarrow> Some v
           | None \<Rightarrow>
               if k = ''query'' then Some query
               else if k \<in> set [''lang'', ''as_of_time'', ''escape'', ''uniqueness_failure'']
                    then map_of (options s) k
                    else None)"
    by (auto simp: results_envelope_lookup envelope_opts_def map_of_getopts split: option.splits)
qed

lemma page_of_page1: "page_of demo_lib (Response 200 [] ''page1'') = Some ([JStr ''a'', JStr ''b''], JStr ''tok'')"
  by (simp add: page_of_def demo_lib_def demo_bodies_def page1_def)

lemma page_of_page2: "page_of demo_lib (Response 200 [] ''page2'') = Some ([JStr ''c''], JBool False)"
  by (simp add: page_of_def demo_lib_def demo_bodies_def page2_def)

theorem results_pagination_witness:
  "results demo_lib demo_session
     \<lparr>pending = [Response 200 [] ''page1'', Response 200 [] ''page2'', Failure], sent = []\<rparr>
     (JStr ''albums'') [] =
   ([Request ''http://api.freebase.com/api/service/mqlread?query={query: albums, lang: /lang/en, cursor: true}'',
     Yield (JStr ''a''), Yield (JStr ''b''),
     Request ''http://api.freebase.com/api/service/mqlread?query={query: albums, lang: /lang/en, cursor: tok}'',
     Yield (JStr ''c'')],
    None,
    demo_session\<lparr>lasturl :=
      Some ''http://api.freebase.com/api/service/mqlread?query={query: albums, lang: /lang/en, cursor: tok}''\<rparr>,
    \<lparr>pending = [Failure],
     sent = [''http://api.freebase.com/api/service/mqlread?query={query: albums, lang: /lang/en, cursor: true}'',
             ''http://api.freebase.com/api/service/mqlread?query={query: albums, lang: /lang/en, cursor: tok}'']\<rparr>) \<and>
   yields (fst (results demo_lib demo_session
     \<lparr>pending = [Response 200 [] ''page1'', Response 200 [] ''page2'', Failure], sent = []\<rparr>
     (JStr ''albums'') [])) = [JStr ''a'', JStr ''b'', JStr ''c''] \<and>
   fst (snd (results demo_lib demo_session
     \<lparr>pending = [Response 200 [] ''page1'', Response 200 [] ''page2'', Failure], sent = []\<rparr>
     (JStr ''albums'') [])) = None"
proof -
  have env: "results_envelope demo_session (JStr ''albums'') [] c =
               [(''query'', JStr ''albums''), (''lang'', JStr ''/lang/en''), (''cursor'', c)]" for c
    by (simp add: results_envelope_def envelope_opts_def Session_getopts_def demo_session_def
          AList.merge_def)
  have pages:
    "pending \<lparr>pending = [Response 200 [] ''page1'', Response 200 [] ''page2'', Failure], sent = []\<rparr> =
       [Response 200 [] ''page1'', Response 200 [] ''page2''] @ [Failure] \<and>
     map (page_of demo_lib) [Response 200 [] ''page1'', Response 200 [] ''page2''] =
       map Some [([JStr ''a'', JStr ''b''], JStr ''tok''), ([JStr ''c''], JBool False)] \<and>
     [([JStr ''a'', JStr ''b''], JStr ''tok''), ([JStr ''c''], JBool False)] \<noteq> [] \<and>
     (\<forall>p\<in>set (butlast [([JStr ''a'', JStr ''b''], JStr ''tok''), ([JStr ''c''], JBool False)]).
        truthy (snd p)) \<and>
     \<not> truthy (snd (last [([JStr ''a'', JStr ''b''], JStr ''tok''), ([JStr ''c''], JBool False)]))"
    by (simp add: page_of_page1 page_of_page2)
  note run = results_pagination
          [of demo_session demo_lib "JStr ''albums''" "[]"
              "\<lparr>pending = [Response 200 [] ''page1'', Response 200 [] ''page2'', Failure], sent = []\<rparr>"
              "[Response 200 [] ''page1'', Response 200 [] ''page2'']" "[Failure]"
              "[([JStr ''a'', JStr ''b''], JStr ''tok''), ([JStr ''c''], JBool False)]",
           THEN conjunct1, unfolded Let_def, THEN mp, OF pages]
  from run show ?thesis
    by (simp add: env [unfolded demo_session_def] demo_lib_def render_params_def demo_session_def)
qed

section \<open>Failed envelopes\<close>

lemma Session_check_failed:
  "failed e \<Longrightarrow> lasturl s = Some u \<Longrightarrow> Session_check s e = Inl (ServiceError u e)"
  by (auto simp: failed_def Session_check_def split: sum.splits)

lemma search_failed:
  assumes "pending w = Response st hs b # rest" and "loads L b = Some e" and "failed e"
  shows "search L s w query kw =
           (Inl (ServiceError (search_url L s query kw) e),
            s\<lparr>lasturl := Some (search_url L s query kw)\<rparr>,
            \<lparr>pending = rest, sent = sent w @ [search_url L s query kw]\<rparr>)"
  using assms by (simp add: search_def Session_fetch_json Session_check_failed)

lemma read_outer_failed:
  assumes "pending w = Response st hs b # rest" and "loads L b = Some e" and "failed e"
  shows "read L s w queries kw =
           (Inl (ServiceError (read_url L s queries kw) e),
            s\<lparr>lasturl := Some (read_url L s queries kw)\<rparr>,
            \<lparr>pending = rest, sent = sent w @ [read_url L s queries kw]\<rparr>)"
  using assms by (simp add: read_def Let_def Session_fetch_json Session_check_failed)

lemma results_loop_failed_page:
  assumes "truthy cursor"
      and "pending w = rps @ Response st hs b # rest"
      and "map (page_of L) rps = map Some pages"
      and "\<forall>p\<in>set pages. truthy (snd p)"
      and "loads L b = Some e" and "failed e"
  shows "results_loop L s w envelope cursor acc =
           (acc @ page_events (\<lambda>c. results_url L s (AList.update ''cursor'' c envelope)) cursor pages @
              [Request (results_url L s (AList.update ''cursor'' (last (cursor # map snd pages)) envelope))],
            Some (ServiceError (results_url L s (AList.update ''cursor'' (last (cursor # map snd pages)) envelope)) e),
            s\<lparr>lasturl := Some (results_url L s (AList.update ''cursor'' (last (cursor # map snd pages)) envelope))\<rparr>,
            \<lparr>pending = rest,
             sent = sent w @ map (\<lambda>c. results_url L s (AList.update ''cursor'' c envelope))
                              (cursor # map snd pages)\<rparr>)"
  using assms(1-4)
proof (induction pages arbitrary: s w envelope cursor acc rps)
  case Nil
  then have "pending w = Response st hs b # rest" by simp
  from Session_fetch_json [OF this assms(5)] Nil(1) assms(6) show ?case
    by (subst results_loop.simps) (simp add: Let_def Session_check_failed)
next
  case (Cons p ps)
  obtain items c where p: "p = (items, c)" by (cases p)
  from Cons.prems(3) obtain rp rps' where rps: "rps = rp # rps'" "page_of L rp = Some (items, c)"
    "map (page_of L) rps' = map Some ps"
    by (cases rps) (auto simp: p)
  from Cons.prems(2) rps(1) have pend: "pending w = rp # (rps' @ Response st hs b # rest)" by simp
  note step = results_loop_page [OF Cons.prems(1) pend rps(2), of s envelope acc]
  from Cons.prems(4) p have c: "truthy c" and ps: "\<forall>p\<in>set ps. truthy (snd p)" by simp_all
  have ih: "results_loop L s' w' envelope' c acc' =
           (acc' @ page_events (\<lambda>c. results_url L s' (AList.update ''cursor'' c envelope')) c ps @
              [Request (results_url L s' (AList.update ''cursor'' (last (c # map snd ps)) envelope'))],
            Some (ServiceError (results_url L s' (AList.update ''cursor'' (last (c # map snd ps)) envelope')) e),
            s'\<lparr>lasturl := Some (results_url L s' (AList.update ''cursor'' (last (c # map snd ps)) envelope'))\<rparr>,
            \<lparr>pending = rest,
             sent = sent w' @ map (\<lambda>c. results_url L s' (AList.update ''cursor'' c envelope'))
                               (c # map snd ps)\<rparr>)"
    if "pending w' = rps' @ Response st hs b # rest" for s' w' envelope' acc'
    by (rule Cons.IH [OF c that rps(3) ps])
  show ?case
    unfolding step
    by (subst ih) (simp_all add: p results_url_lasturl)
qed

lemma results_failed_page:
  assumes "pending w = rps @ Response st hs b # rest"
      and "map (page_of L) rps = map Some pages"
      and "\<forall>p\<in>set pages. truthy (snd p)"
      and "loads L b = Some e" and "failed e"
  shows "results L s w query kw =
           (page_events (\<lambda>c. results_url L s (results_envelope s query kw c)) (JBool True) pages @
              [Request (results_url L s (results_envelope s query kw (last (JBool True # map snd pages))))],
            Some (ServiceError (results_url L s (results_envelope s query kw (last (JBool True # map snd pages)))) e),
            s\<lparr>lasturl := Some (results_url L s (results_envelope s query kw (last (JBool True # map snd pages))))\<rparr>,
            \<lparr>pending = rest,
             sent = sent w @ map (\<lambda>c. results_url L s (results_envelope s query kw c))
                              (JBool True # map snd pages)\<rparr>)"
proof -
  have "truthy (JBool True)" by simp
  from results_loop_failed_page [OF this assms, of s "AList.merge [(''query'', query)] (envelope_opts s kw)" "[]"]
  show ?thesis
    by (simp add: results_def results_envelope_def Let_def)
qed

text \<open>
  C4. An envelope whose \<^verbatim>\<open>code\<close> is not the success code makes \<^verbatim>\<open>_check\<close> raise
  ServiceError with the URL last requested and the envelope. So \<^verbatim>\<open>search\<close>, \<^verbatim>\<open>read\<close>
  (for the outer envelope and for the first inner envelope with such a code) and
  \<^verbatim>\<open>results\<close> (for the first page with such a code) raise ServiceError instead of
  returning; \<^verbatim>\<open>results\<close> has then yielded the items of the earlier pages only. Nothing
  is assumed about a \<^verbatim>\<open>result\<close> field of the failed envelope: the exception is
  raised whether or not there is one, so the field is not read before the check.
\<close>

theorem failed_envelope_raises:
  "(failed e \<and> lasturl s = Some u \<longrightarrow> Session_check s e = Inl (ServiceError u e)) \<and>
   (pending w = Response st hs b # rest \<and> loads L b = Some e \<and> failed e \<longrightarrow>
      search L s w q kw =
        (Inl (ServiceError (search_url L s q kw) e),
         s\<lparr>lasturl := Some (search_url L s q kw)\<rparr>,
         \<lparr>pending = rest, sent = sent w @ [search_url L s q kw]\<rparr>) \<and>
      read L s w queries kw =
        (Inl (ServiceError (read_url L s queries kw) e),
         s\<lparr>lasturl := Some (read_url L s queries kw)\<rparr>,
         \<lparr>pending = rest, sent = sent w @ [read_url L s queries kw]\<rparr>)) \<and>
   (pending w = Response st hs b # rest \<and> loads L b = Some outer \<and>
    py_getitem outer ''code'' = Inr (JStr OK) \<and> i < length queries \<and>
    (\<forall>j<i. \<exists>x. py_getitem outer (qname j) = Inr x \<and> delivers x) \<and>
    py_getitem outer (qname i) = Inr e \<and> failed e \<longrightarrow>
      read L s w queries kw =
        (Inl (ServiceError (read_url L s queries kw) e),
         s\<lparr>lasturl := Some (read_url L s queries kw)\<rparr>,
         \<lparr>pending = rest, sent = sent w @ [read_url L s queries kw]\<rparr>)) \<and>
   (pending w = rps @ Response st hs b # rest \<and> map (page_of L) rps = map Some pages \<and>
    (\<forall>p\<in>set pages. truthy (snd p)) \<and> loads L b = Some e \<and> failed e \<longrightarrow>
      results L s w query kw =
        (page_events (\<lambda>c. results_url L s (results_envelope s query kw c)) (JBool True) pages @
           [Request (results_url L s (results_envelope s query kw (last (JBool True # map snd pages))))],
         Some (ServiceError (results_url L s (results_envelope s query kw (last (JBool True # map snd pages)))) e),
         s\<lparr>lasturl := Some (results_url L s (results_envelope s query kw (last (JBool True # map snd pages))))\<rparr>,
         \<lparr>pending = rest,
          sent = sent w @ map (\<lambda>c. results_url L s (results_envelope s query kw c))
                           (JBool True # map snd pages)\<rparr>))"
proof (intro conjI impI)
  assume "failed e \<and> lasturl s = Some u"
  then show "Session_check s e = Inl (ServiceError u e)"
    by (simp add: Session_check_failed)
next
  assume "pending w = Response st hs b # rest \<and> loads L b = Some e \<and> failed e"
  then show "search L s w q kw =
        (Inl (ServiceError (search_url L s q kw) e),
         s\<lparr>lasturl := Some (search_url L s q kw)\<rparr>,
         \<lparr>pending = rest, sent = sent w @ [search_url L s q kw]\<rparr>)"
    by (simp add: search_failed)
next
  assume "pending w = Response st hs b # rest \<and> loads L b = Some e \<and> failed e"
  then show "read L s w queries kw =
        (Inl (ServiceError (read_url L s queries kw) e),
         s\<lparr>lasturl := Some (read_url L s queries kw)\<rparr>,
         \<lparr>pending = rest, sent = sent w @ [read_url L s queries kw]\<rparr>)"
    by (simp add: read_outer_failed)
next
  assume "pending w = Response st hs b # rest \<and> loads L b = Some outer \<and>
    py_getitem outer ''code'' = Inr (JStr OK) \<and> i < length queries \<and>
    (\<forall>j<i. \<exists>x. py_getitem outer (qname j) = Inr x \<and> delivers x) \<and>
    py_getitem outer (qname i) = Inr e \<and> failed e"
  then have a: "pending w = Response st hs b # rest" "loads L b = Some outer"
    "py_getitem outer ''code'' = Inr (JStr OK)" "i < length queries"
    "\<forall>j<i. \<exists>x. py_getitem outer (qname j) = Inr x \<and> delivers x"
    "py_getitem outer (qname i) = Inr e" "failed e"
    by simp_all
  show "read L s w queries kw =
        (Inl (ServiceError (read_url L s queries kw) e),
         s\<lparr>lasturl := Some (read_url L s queries kw)\<rparr>,
         \<lparr>pending = rest, sent = sent w @ [read_url L s queries kw]\<rparr>)"
    by (rule read_first_bad [OF a])
next
  assume "pending w = rps @ Response st hs b # rest \<and> map (page_of L) rps = map Some pages \<and>
    (\<forall>p\<in>set pages. truthy (snd p)) \<and> loads L b = Some e \<and> failed e"
  then have a: "pending w = rps @ Response st hs b # rest" "map (page_of L) rps = map Some pages"
    "\<forall>p\<in>set pages. truthy (snd p)" "loads L b = Some e" "failed e"
    by simp_all
  show "results L s w query kw =
        (page_events (\<lambda>c. results_url L s (results_envelope s query kw c)) (JBool True) pages @
           [Request (results_url L s (results_envelope s query kw (last (JBool True # map snd pages))))],
         Some (ServiceError (results_url L s (results_envelope s query kw (last (JBool True # map snd pages)))) e),
         s\<lparr>lasturl := Some (results_url L s (results_envelope s query kw (last (JBool True # map snd pages))))\<rparr>,
         \<lparr>pending = rest,
          sent = sent w @ map (\<lambda>c. results_url L s (results_envelope s query kw c))
                           (JBool True # map snd pages)\<rparr>)"
    by (rule results_failed_page [OF a])
qed


lemma loads_notfound: "loads demo_lib ''notfound'' = Some not_found"
  by (simp add: demo_lib_def demo_bodies_def)

theorem failed_envelope_raises_witness:
  "Session_check (demo_session\<lparr>lasturl := Some ''http://api.freebase.com/''\<rparr>) not_found =
     Inl (ServiceError ''http://api.freebase.com/'' not_found) \<and>
   fst (search demo_lib demo_session \<lparr>pending = [Response 404 [] ''notfound''], sent = []\<rparr> ''foo'' []) =
     Inl (ServiceError (search_url demo_lib demo_session ''foo'' []) not_found) \<and>
   fst (read demo_lib demo_session \<lparr>pending = [Response 404 [] ''notfound''], sent = []\<rparr> [JNull] []) =
     Inl (ServiceError (read_url demo_lib demo_session [JNull] []) not_found) \<and>
   fst (read demo_lib demo_session \<lparr>pending = [Response 200 [] ''second fails''], sent = []\<rparr>
          [JNull, JNull] []) =
     Inl (ServiceError (read_url demo_lib demo_session [JNull, JNull] []) not_found) \<and>
   results demo_lib demo_session
     \<lparr>pending = [Response 200 [] ''page1'', Response 404 [] ''notfound'', Response 200 [] ''page2''],
      sent = []\<rparr> (JStr ''albums'') [] =
     ([Request (results_url demo_lib demo_session (results_envelope demo_session (JStr ''albums'') [] (JBool True))),
       Yield (JStr ''a''), Yield (JStr ''b''),
       Request (results_url demo_lib demo_session (results_envelope demo_session (JStr ''albums'') [] (JStr ''tok'')))],
      Some (ServiceError (results_url demo_lib demo_session
                            (results_envelope demo_session (JStr ''albums'') [] (JStr ''tok''))) not_found),
      demo_session\<lparr>lasturl := Some (results_url demo_lib demo_session
                            (results_envelope demo_session (JStr ''albums'') [] (JStr ''tok'')))\<rparr>,
      \<lparr>pending = [Response 200 [] ''page2''],
       sent = [results_url demo_lib demo_session (results_envelope demo_session (JStr ''albums'') [] (JBool True)),
               results_url demo_lib demo_session (results_envelope demo_session (JStr ''albums'') [] (JStr ''tok''))]\<rparr>)"
proof (intro conjI)
  show "Session_check (demo_session\<lparr>lasturl := Some ''http://api.freebase.com/''\<rparr>) not_found =
     Inl (ServiceError ''http://api.freebase.com/'' not_found)"
    using failed_envelope_raises [where e = not_found and s = "demo_session\<lparr>lasturl := Some ''http://api.freebase.com/''\<rparr>"
              and u = "''http://api.freebase.com/''",
              THEN conjunct1]
    by (simp add: failed_not_found)
  have outer: "search demo_lib demo_session \<lparr>pending = [Response 404 [] ''notfound''], sent = []\<rparr> ''foo'' [] =
        (Inl (ServiceError (search_url demo_lib demo_session ''foo'' []) not_found),
         demo_session\<lparr>lasturl := Some (search_url demo_lib demo_session ''foo'' [])\<rparr>,
         \<lparr>pending = [], sent = sent \<lparr>pending = [Response 404 [] ''notfound''], sent = []\<rparr> @
                                [search_url demo_lib demo_session ''foo'' []]\<rparr>) \<and>
      read demo_lib demo_session \<lparr>pending = [Response 404 [] ''notfound''], sent = []\<rparr> [JNull] [] =
        (Inl (ServiceError (read_url demo_lib demo_session [JNull] []) not_found),
         demo_session\<lparr>lasturl := Some (read_url demo_lib demo_session [JNull] [])\<rparr>,
         \<lparr>pending = [], sent = sent \<lparr>pending = [Response 404 [] ''notfound''], sent = []\<rparr> @
                                [read_url demo_lib demo_session [JNull] []]\<rparr>)"
    by (rule failed_envelope_raises [where b = "''notfound''" and st = 404 and hs = "[]",
              THEN conjunct2, THEN conjunct1, THEN mp])
       (simp add: failed_not_found loads_notfound)
  from outer show "fst (search demo_lib demo_session \<lparr>pending = [Response 404 [] ''notfound''], sent = []\<rparr> ''foo'' []) =
     Inl (ServiceError (search_url demo_lib demo_session ''foo'' []) not_found)"
    by simp
  from outer show "fst (read demo_lib demo_session \<lparr>pending = [Response 404 [] ''notfound''], sent = []\<rparr> [JNull] []) =
     Inl (ServiceError (read_url demo_lib demo_session [JNull] []) not_found)"
    by simp
  have "read demo_lib demo_session \<lparr>pending = [Response 200 [] ''second fails''], sent = []\<rparr> [JNull, JNull] [] =
        (Inl (ServiceError (read_url demo_lib demo_session [JNull, JNull] []) not_found),
         demo_session\<lparr>lasturl := Some (read_url demo_lib demo_session [JNull, JNull] [])\<rparr>,
         \<lparr>pending = [], sent = sent \<lparr>pending = [Response 200 [] ''second fails''], sent = []\<rparr> @
                                [read_url demo_lib demo_session [JNull, JNull] []]\<rparr>)"
    by (rule failed_envelope_raises [where b = "''second fails''" and st = 200 and hs = "[]"
              and outer = second_fails and i = 1,
              THEN conjunct2, THEN conjunct2, THEN conjunct1, THEN mp])
       (simp add: failed_not_found demo_lib_def demo_bodies_def second_fails_def qname_0 qname_Suc0
          delivers_def ok_with_def)
  then show "fst (read demo_lib demo_session \<lparr>pending = [Response 200 [] ''second fails''], sent = []\<rparr>
          [JNull, JNull] []) =
     Inl (ServiceError (read_url demo_lib demo_session [JNull, JNull] []) not_found)"
    by simp
  show "results demo_lib demo_session
     \<lparr>pending = [Response 200 [] ''page1'', Response 404 [] ''notfound'', Response 200 [] ''page2''],
      sent = []\<rparr> (JStr ''albums'') [] =
     ([Request (results_url demo_lib demo_session (results_envelope demo_session (JStr ''albums'') [] (JBool True))),
       Yield (JStr ''a''), Yield (JStr ''b''),
       Request (results_url demo_lib demo_session (results_envelope demo_session (JStr ''albums'') [] (JStr ''tok'')))],
      Some (ServiceError (results_url demo_lib demo_session
                            (results_envelope demo_session (JStr ''albums'') [] (JStr ''tok''))) not_found),
      demo_session\<lparr>lasturl := Some (results_url demo_lib demo_session
                            (results_envelope demo_session (JStr ''albums'') [] (JStr ''tok'')))\<rparr>,
      \<lparr>pending = [Response 200 [] ''page2''],
       sent = [results_url demo_lib demo_session (results_envelope demo_session (JStr ''albums'') [] (JBool True)),
               results_url demo_lib demo_session (results_envelope demo_session (JStr ''albums'') [] (JStr ''tok''))]\<rparr>)"
    using failed_envelope_raises [where rps = "[Response 200 [] ''page1'']" and st = 404 and hs = "[]" and b = "''notfound''"
              and rest = "[Response 200 [] ''page2'']" and L = demo_lib
              and pages = "[([JStr ''a'', JStr ''b''], JStr ''tok'')]" and e = not_found
              and w = "\<lparr>pending = [Response 200 [] ''page1'', Response 404 [] ''notfound'', Response 200 [] ''page2''],
                        sent = []\<rparr>"
              and s = demo_session and query = "JStr ''albums''" and kw = "[]",
            THEN conjunct2, THEN conjunct2, THEN conjunct2]
    by (simp add: failed_not_found loads_notfound page_of_page1)
qed

end
